theory Spec2Isabelle
  imports Complex_Main "HOL-Library.Sublist"
begin

section \<open>Values of the program\<close>

text \<open>
  The collection is a Python list of dictionaries, read from and written to a JSON file.
  Nothing in \<^verbatim>\<open>app.py\<close> checks the shape of what \<^verbatim>\<open>json.load\<close> returns, so the model
  keeps the values dynamically typed: \<open>pyval\<close> holds the values that JSON text decodes to
  (floating-point numbers apart, which no operation below inspects). A dictionary is an
  association list in insertion order, looked up with \<open>map_of\<close>.
\<close>

datatype pyval =
    PNone
  | PBool bool
  | PInt int
  | PStr string
  | PList "pyval list"
  | PDict "(string \<times> pyval) list"

text \<open>The exceptions the modelled code can raise.\<close>

datatype error =
    KeyError string
  | TypeError
  | AttributeError
  | UnicodeDecodeError
  | ZeroDivisionError
  | OverflowError

text \<open>
  \<^verbatim>\<open>str.lower()\<close> on the code points 0 to 255: the letters A to Z and the capital letters
  of Latin-1 (U+00C0 to U+00DE, the multiplication sign U+00D7 apart) are mapped to the
  letter 32 code points further, every other character is left as it is. Code points
  above 255 are outside the model.
\<close>

definition upper_letters :: string where
  "upper_letters =
     ''ABCDEFGHIJKLMNOPQRSTUVWXYZ''
     @ [CHR 0xC0, CHR 0xC1, CHR 0xC2, CHR 0xC3, CHR 0xC4, CHR 0xC5, CHR 0xC6, CHR 0xC7,
         CHR 0xC8, CHR 0xC9, CHR 0xCA, CHR 0xCB, CHR 0xCC, CHR 0xCD, CHR 0xCE, CHR 0xCF,
         CHR 0xD0, CHR 0xD1, CHR 0xD2, CHR 0xD3, CHR 0xD4, CHR 0xD5, CHR 0xD6, CHR 0xD8,
         CHR 0xD9, CHR 0xDA, CHR 0xDB, CHR 0xDC, CHR 0xDD, CHR 0xDE]"

definition lower_letters :: string where
  "lower_letters =
     ''abcdefghijklmnopqrstuvwxyz''
     @ [CHR 0xE0, CHR 0xE1, CHR 0xE2, CHR 0xE3, CHR 0xE4, CHR 0xE5, CHR 0xE6, CHR 0xE7,
         CHR 0xE8, CHR 0xE9, CHR 0xEA, CHR 0xEB, CHR 0xEC, CHR 0xED, CHR 0xEE, CHR 0xEF,
         CHR 0xF0, CHR 0xF1, CHR 0xF2, CHR 0xF3, CHR 0xF4, CHR 0xF5, CHR 0xF6, CHR 0xF8,
         CHR 0xF9, CHR 0xFA, CHR 0xFB, CHR 0xFC, CHR 0xFD, CHR 0xFE]"

definition lower_char :: "char \<Rightarrow> char" where
  "lower_char c =
     (case map_of (zip upper_letters lower_letters) c of Some l \<Rightarrow> l | None \<Rightarrow> c)"

definition lower :: "string \<Rightarrow> string" where
  "lower s = map lower_char s"

text \<open>\<^verbatim>\<open>v.lower()\<close> on a value: only a string has the method.\<close>

definition py_lower :: "pyval \<Rightarrow> error + string" where
  "py_lower v = (case v of PStr s \<Rightarrow> Inr (lower s) | _ \<Rightarrow> Inl AttributeError)"

text \<open>
  \<^verbatim>\<open>v[key]\<close> with a string key: a dictionary looks the key up (KeyError when it is
  missing); a list or a string wants an integer index, and the other values are not
  subscriptable (TypeError).
\<close>

definition py_getitem :: "pyval \<Rightarrow> string \<Rightarrow> error + pyval" where
  "py_getitem v key =
     (case v of
        PDict kvs \<Rightarrow> (case map_of kvs key of None \<Rightarrow> Inl (KeyError key) | Some x \<Rightarrow> Inr x)
      | _ \<Rightarrow> Inl TypeError)"

text \<open>
  \<^verbatim>\<open>for x in v\<close>: a list yields its elements, a dictionary its keys, a string its
  characters; the other values are not iterable.
\<close>

definition py_iter :: "pyval \<Rightarrow> error + pyval list" where
  "py_iter v =
     (case v of
        PList xs \<Rightarrow> Inr xs
      | PDict kvs \<Rightarrow> Inr (map (\<lambda>kv. PStr (fst kv)) kvs)
      | PStr s \<Rightarrow> Inr (map (\<lambda>c. PStr [c]) s)
      | _ \<Rightarrow> Inl TypeError)"

text \<open>\<^verbatim>\<open>len(v)\<close>.\<close>

definition py_len :: "pyval \<Rightarrow> error + nat" where
  "py_len v =
     (case v of
        PList xs \<Rightarrow> Inr (length xs)
      | PDict kvs \<Rightarrow> Inr (length kvs)
      | PStr s \<Rightarrow> Inr (length s)
      | _ \<Rightarrow> Inl TypeError)"

text \<open>The truth value of \<^verbatim>\<open>if v\<close>.\<close>

definition truthy :: "pyval \<Rightarrow> bool" where
  "truthy v =
     (case v of
        PNone \<Rightarrow> False
      | PBool b \<Rightarrow> b
      | PInt i \<Rightarrow> i \<noteq> 0
      | PStr s \<Rightarrow> s \<noteq> []
      | PList xs \<Rightarrow> xs \<noteq> []
      | PDict kvs \<Rightarrow> kvs \<noteq> [])"

text \<open>
  \<^verbatim>\<open>d[k] = v\<close> on a dictionary: an existing key keeps its place, a new key goes last.
  \<^verbatim>\<open>d.update(new_data)\<close> stores the pairs of \<open>new_data\<close> one after the other.
\<close>

fun dict_setitem :: "string \<Rightarrow> pyval \<Rightarrow> (string \<times> pyval) list \<Rightarrow> (string \<times> pyval) list" where
  "dict_setitem k v [] = [(k, v)]"
| "dict_setitem k v (kv # kvs) =
     (if fst kv = k then (k, v) # kvs else kv # dict_setitem k v kvs)"

fun dict_update :: "(string \<times> pyval) list \<Rightarrow> (string \<times> pyval) list \<Rightarrow> (string \<times> pyval) list" where
  "dict_update kvs [] = kvs"
| "dict_update kvs (kv # new_data) = dict_update (dict_setitem (fst kv) (snd kv) kvs) new_data"

definition py_update :: "pyval \<Rightarrow> (string \<times> pyval) list \<Rightarrow> error + pyval" where
  "py_update v new_data =
     (case v of PDict kvs \<Rightarrow> Inr (PDict (dict_update kvs new_data)) | _ \<Rightarrow> Inl AttributeError)"

subsection \<open>Floating-point numbers\<close>

text \<open>
  A Python \<^verbatim>\<open>float\<close> is an IEEE 754 double. A finite double is modelled by the
  rational number it stands for (the two zeros are one value), and an arithmetic
  operation by its exact result rounded to the nearest double, a tie going to the double
  whose last bit is even.

  \<open>bit_length n\<close> is the number of binary digits of \<open>n\<close>, and \<open>binary_exponent x\<close>, for a
  positive \<open>x\<close>, the exponent \<open>e\<close> with \<open>2 ^ e \<le> x < 2 ^ (e + 1)\<close>. The doubles with that
  exponent are the multiples of \<open>2 ^ (e - 52)\<close>; below the exponent -1022 the doubles are
  the multiples of \<open>2 ^ (- 1074)\<close>. \<open>round_double x\<close> is the multiple nearest to \<open>x\<close>; it is a
  double when it is less than \<open>2 ^ 1024\<close> in absolute value.
\<close>

fun bit_length :: "nat \<Rightarrow> nat" where
  "bit_length n = (if n = 0 then 0 else Suc (bit_length (n div 2)))"

declare bit_length.simps [simp del]

definition binary_exponent :: "rat \<Rightarrow> int" where
  "binary_exponent x =
     (if 1 \<le> x then int (bit_length (nat \<lfloor>x\<rfloor>)) - 1
      else - int (bit_length (nat (\<lceil>1 / x\<rceil> - 1))))"

definition round_half_even :: "rat \<Rightarrow> int" where
  "round_half_even y =
     (if y - of_int \<lfloor>y\<rfloor> < 1 / 2 then \<lfloor>y\<rfloor>
      else if 1 / 2 < y - of_int \<lfloor>y\<rfloor> then \<lfloor>y\<rfloor> + 1
      else if even \<lfloor>y\<rfloor> then \<lfloor>y\<rfloor>
      else \<lfloor>y\<rfloor> + 1)"

definition round_double :: "rat \<Rightarrow> rat" where
  "round_double x =
     (if x = 0 then 0
      else sgn x
           * of_int (round_half_even (\<bar>x\<bar> / 2 powi (max (binary_exponent \<bar>x\<bar>) (- 1022) - 52)))
           * 2 powi (max (binary_exponent \<bar>x\<bar>) (- 1022) - 52))"

datatype pyfloat =
    Finite rat
  | PosInf
  | NegInf
  | NaN

text \<open>
  \<^verbatim>\<open>a / b\<close> on two \<^verbatim>\<open>int\<close>s: the quotient rounded once to a double; ZeroDivisionError
  when \<open>b\<close> is zero, OverflowError when the quotient is too large for a double.
\<close>

definition py_truediv :: "int \<Rightarrow> int \<Rightarrow> error + pyfloat" where
  "py_truediv a b =
     (if b = 0 then Inl ZeroDivisionError
      else if 2 ^ 1024 \<le> \<bar>round_double (of_int a / of_int b)\<bar> then Inl OverflowError
      else Inr (Finite (round_double (of_int a / of_int b))))"

text \<open>
  \<^verbatim>\<open>x * y\<close> on two \<^verbatim>\<open>float\<close>s: the product rounded to a double, an infinity when it is
  too large; the infinities and the NaN as IEEE 754 has them.
\<close>

definition float_result :: "rat \<Rightarrow> pyfloat" where
  "float_result x =
     (if 2 ^ 1024 \<le> round_double x then PosInf
      else if round_double x \<le> - (2 ^ 1024) then NegInf
      else Finite (round_double x))"

fun py_float_mul :: "pyfloat \<Rightarrow> pyfloat \<Rightarrow> pyfloat" where
  "py_float_mul (Finite a) (Finite b) = float_result (a * b)"
| "py_float_mul (Finite a) PosInf = (if a = 0 then NaN else if 0 < a then PosInf else NegInf)"
| "py_float_mul (Finite a) NegInf = (if a = 0 then NaN else if 0 < a then NegInf else PosInf)"
| "py_float_mul PosInf (Finite b) = (if b = 0 then NaN else if 0 < b then PosInf else NegInf)"
| "py_float_mul NegInf (Finite b) = (if b = 0 then NaN else if 0 < b then NegInf else PosInf)"
| "py_float_mul PosInf PosInf = PosInf"
| "py_float_mul PosInf NegInf = NegInf"
| "py_float_mul NegInf PosInf = NegInf"
| "py_float_mul NegInf NegInf = PosInf"
| "py_float_mul NaN y = NaN"
| "py_float_mul x NaN = NaN"

text \<open>A number that is an \<^verbatim>\<open>int\<close> or a \<^verbatim>\<open>float\<close>.\<close>

datatype pynumber =
    PyInt int
  | PyFloat pyfloat

section \<open>The text of the file\<close>

text \<open>
  \<^verbatim>\<open>json.dump(value, file, indent=4)\<close> and \<^verbatim>\<open>json.load(file)\<close> belong to the Python
  library, not to this program. What follows is a model of the text the first writes
  and of the way the second reads such a text, so that saving and loading can be
  followed through the file. A string is a list of 8-bit characters, read as the code
  points 0 to 255.

  Writing a string: the quote, the backslash and the control characters with a short
  form are escaped with a backslash, every other character outside the printable ASCII
  range as \<^verbatim>\<open>\u00XX\<close>.
\<close>

definition hex_char :: "nat \<Rightarrow> char" where
  "hex_char n = ''0123456789abcdef'' ! n"

definition escape_char :: "char \<Rightarrow> string" where
  "escape_char c =
     (if c = CHR 0x22 then [CHR 0x5C, CHR 0x22]
      else if c = CHR 0x5C then [CHR 0x5C, CHR 0x5C]
      else if c = CHR 0x0A then [CHR 0x5C, CHR ''n'']
      else if c = CHR 0x0D then [CHR 0x5C, CHR ''r'']
      else if c = CHR 0x09 then [CHR 0x5C, CHR ''t'']
      else if c = CHR 0x0C then [CHR 0x5C, CHR ''f'']
      else if c = CHR 0x08 then [CHR 0x5C, CHR ''b'']
      else if 32 \<le> (of_char c :: nat) \<and> (of_char c :: nat) \<le> 126 then [c]
      else [CHR 0x5C, CHR ''u'', CHR ''0'', CHR ''0'',
            hex_char ((of_char c :: nat) div 16), hex_char ((of_char c :: nat) mod 16)])"

definition str_text :: "string \<Rightarrow> string" where
  "str_text s = CHR 0x22 # concat (map escape_char s) @ [CHR 0x22]"

text \<open>Writing an integer: its decimal digits, after a minus sign when it is negative.\<close>

definition digit_char :: "nat \<Rightarrow> char" where
  "digit_char d = ''0123456789'' ! d"

fun dec_text :: "nat \<Rightarrow> string" where
  "dec_text n = (if n < 10 then [digit_char n] else dec_text (n div 10) @ [digit_char (n mod 10)])"

declare dec_text.simps [simp del]

definition int_text :: "int \<Rightarrow> string" where
  "int_text i = (if i < 0 then CHR ''-'' # dec_text (nat (- i)) else dec_text (nat i))"

text \<open>
  Writing a value with \<^verbatim>\<open>indent=4\<close>: an empty list is \<^verbatim>\<open>[]\<close>; the items of another
  list each start a line, indented by four spaces for each level of nesting, with a comma
  after every item but the last, and the closing bracket is on a line of its own. A
  dictionary is written the same way, every value after its key, a colon and a space.
\<close>

definition newline_indent :: "nat \<Rightarrow> string" where
  "newline_indent level = CHR 0x0A # replicate (4 * level) CHR '' ''"

fun json_text :: "nat \<Rightarrow> pyval \<Rightarrow> string"
  and items_text :: "nat \<Rightarrow> pyval list \<Rightarrow> string"
  and members_text :: "nat \<Rightarrow> (string \<times> pyval) list \<Rightarrow> string" where
  "json_text level PNone = ''null''"
| "json_text level (PBool b) = (if b then ''true'' else ''false'')"
| "json_text level (PInt i) = int_text i"
| "json_text level (PStr s) = str_text s"
| "json_text level (PList xs) =
     (if xs = [] then ''[]''
      else ''['' @ newline_indent (Suc level) @ items_text (Suc level) xs
           @ newline_indent level @ '']'')"
| "json_text level (PDict kvs) =
     (if kvs = [] then ''{}''
      else ''{'' @ newline_indent (Suc level) @ members_text (Suc level) kvs
           @ newline_indent level @ ''}'')"
| "items_text level [] = []"
| "items_text level [x] = json_text level x"
| "items_text level (x # y # ys) =
     json_text level x @ '','' @ newline_indent level @ items_text level (y # ys)"
| "members_text level [] = []"
| "members_text level [kv] = str_text (fst kv) @ '': '' @ json_text level (snd kv)"
| "members_text level (kv # kv' # kvs) =
     str_text (fst kv) @ '': '' @ json_text level (snd kv) @ '','' @ newline_indent level
     @ members_text level (kv' # kvs)"

definition json_dumps :: "pyval \<Rightarrow> string" where
  "json_dumps v = json_text 0 v"

text \<open>
  Reading follows the grammar of JSON: white space is allowed around every value and
  every separator, a string may hold any escape of the grammar, and a dictionary keeps
  the last value given for a key. The reader stops with \<open>None\<close> where the decoder of the
  library raises JSONDecodeError. It also gives \<open>None\<close> for what \<open>pyval\<close> cannot hold: a
  number with a fraction or an exponent, and a \<^verbatim>\<open>\u\<close> escape beyond code point 255. The
  writer above produces neither, and the reader is applied to nothing but what the
  writer wrote. \<open>parse_value n\<close> reads one value in at most \<open>n\<close> nested calls; \<open>json_loads\<close>
  allows as many as the text has characters, which is always enough.
\<close>

definition is_ws :: "char \<Rightarrow> bool" where
  "is_ws c = (c = CHR '' '' \<or> c = CHR 0x09 \<or> c = CHR 0x0A \<or> c = CHR 0x0D)"

definition skip_ws :: "string \<Rightarrow> string" where
  "skip_ws s = dropWhile is_ws s"

definition is_digit :: "char \<Rightarrow> bool" where
  "is_digit c = (48 \<le> (of_char c :: nat) \<and> (of_char c :: nat) \<le> 57)"

definition digit_val :: "char \<Rightarrow> nat" where
  "digit_val c = of_char c - 48"

definition digits_val :: "string \<Rightarrow> nat" where
  "digits_val ds = foldl (\<lambda>a c. 10 * a + digit_val c) 0 ds"

definition hex_val :: "char \<Rightarrow> nat option" where
  "hex_val c =
     (let n = (of_char c :: nat) in
      if 48 \<le> n \<and> n \<le> 57 then Some (n - 48)
      else if 97 \<le> n \<and> n \<le> 102 then Some (n - 87)
      else if 65 \<le> n \<and> n \<le> 70 then Some (n - 55)
      else None)"

definition unescape :: "char \<Rightarrow> char option" where
  "unescape e =
     (if e = CHR 0x22 then Some (CHR 0x22)
      else if e = CHR 0x5C then Some (CHR 0x5C)
      else if e = CHR ''/'' then Some (CHR ''/'')
      else if e = CHR ''b'' then Some (CHR 0x08)
      else if e = CHR ''f'' then Some (CHR 0x0C)
      else if e = CHR ''n'' then Some (CHR 0x0A)
      else if e = CHR ''r'' then Some (CHR 0x0D)
      else if e = CHR ''t'' then Some (CHR 0x09)
      else None)"

definition cons_result :: "'a \<Rightarrow> ('a list \<times> string) option \<Rightarrow> ('a list \<times> string) option" where
  "cons_result x r = (case r of None \<Rightarrow> None | Some (xs, rest) \<Rightarrow> Some (x # xs, rest))"

fun parse_chars :: "string \<Rightarrow> (string \<times> string) option" where
  "parse_chars [] = None"
| "parse_chars (c # cs) =
     (if c = CHR 0x22 then Some ([], cs)
      else if c = CHR 0x5C then
        (case cs of
           [] \<Rightarrow> None
         | e # es \<Rightarrow>
             if e = CHR ''u'' then
               (case es of
                  h1 # h2 # h3 # h4 # r \<Rightarrow>
                    (case (hex_val h1, hex_val h2, hex_val h3, hex_val h4) of
                       (Some a, Some b, Some c', Some d) \<Rightarrow>
                         (if ((a * 16 + b) * 16 + c') * 16 + d < 256
                          then cons_result (char_of (((a * 16 + b) * 16 + c') * 16 + d)) (parse_chars r)
                          else None)
                     | _ \<Rightarrow> None)
                | _ \<Rightarrow> None)
             else (case unescape e of
                     None \<Rightarrow> None
                   | Some d \<Rightarrow> cons_result d (parse_chars es)))
      else if (of_char c :: nat) < 32 then None
      else cons_result c (parse_chars cs))"

definition int_digits :: "string \<Rightarrow> string" where
  "int_digits s = (if hd s = CHR ''0'' then [hd s] else takeWhile is_digit s)"

definition parse_number :: "string \<Rightarrow> (pyval \<times> string) option" where
  "parse_number s =
     (let neg = (s \<noteq> [] \<and> hd s = CHR ''-'');
          s1 = (if neg then tl s else s)
      in if s1 = [] \<or> \<not> is_digit (hd s1) then None
         else
           (let ds = int_digits s1;
                rest = drop (length ds) s1
            in if rest \<noteq> [] \<and> (hd rest = CHR ''.'' \<or> hd rest = CHR ''e'' \<or> hd rest = CHR ''E'')
               then None
               else Some (PInt (if neg then - int (digits_val ds) else int (digits_val ds)), rest)))"

fun parse_value :: "nat \<Rightarrow> string \<Rightarrow> (pyval \<times> string) option"
  and parse_items :: "nat \<Rightarrow> string \<Rightarrow> (pyval list \<times> string) option"
  and parse_members :: "nat \<Rightarrow> string \<Rightarrow> ((string \<times> pyval) list \<times> string) option" where
  "parse_value 0 s = None"
| "parse_value (Suc n) s =
     (if s = [] then None
      else if hd s = CHR 0x22 then
        (case parse_chars (tl s) of None \<Rightarrow> None | Some (x, rest) \<Rightarrow> Some (PStr x, rest))
      else if hd s = CHR ''['' then
        (if skip_ws (tl s) \<noteq> [] \<and> hd (skip_ws (tl s)) = CHR '']''
         then Some (PList [], tl (skip_ws (tl s)))
         else (case parse_items n (skip_ws (tl s)) of
                 None \<Rightarrow> None
               | Some (xs, rest) \<Rightarrow> Some (PList xs, rest)))
      else if hd s = CHR ''{'' then
        (if skip_ws (tl s) \<noteq> [] \<and> hd (skip_ws (tl s)) = CHR ''}''
         then Some (PDict [], tl (skip_ws (tl s)))
         else (case parse_members n (skip_ws (tl s)) of
                 None \<Rightarrow> None
               | Some (kvs, rest) \<Rightarrow> Some (PDict (dict_update [] kvs), rest)))
      else if prefix ''null'' s then Some (PNone, drop 4 s)
      else if prefix ''true'' s then Some (PBool True, drop 4 s)
      else if prefix ''false'' s then Some (PBool False, drop 5 s)
      else parse_number s)"
| "parse_items 0 s = None"
| "parse_items (Suc n) s =
     (case parse_value n s of
        None \<Rightarrow> None
      | Some (x, r) \<Rightarrow>
          (if skip_ws r = [] then None
           else if hd (skip_ws r) = CHR '','' then
             cons_result x (parse_items n (skip_ws (tl (skip_ws r))))
           else if hd (skip_ws r) = CHR '']'' then Some ([x], tl (skip_ws r))
           else None))"
| "parse_members 0 s = None"
| "parse_members (Suc n) s =
     (if s = [] \<or> hd s \<noteq> CHR 0x22 then None
      else (case parse_chars (tl s) of
              None \<Rightarrow> None
            | Some (k, r) \<Rightarrow>
                (if skip_ws r = [] \<or> hd (skip_ws r) \<noteq> CHR '':'' then None
                 else (case parse_value n (skip_ws (tl (skip_ws r))) of
                         None \<Rightarrow> None
                       | Some (x, r') \<Rightarrow>
                           (if skip_ws r' = [] then None
                            else if hd (skip_ws r') = CHR '','' then
                              cons_result (k, x) (parse_members n (skip_ws (tl (skip_ws r'))))
                            else if hd (skip_ws r') = CHR ''}'' then Some ([(k, x)], tl (skip_ws r'))
                            else None)))))"

definition json_loads :: "string \<Rightarrow> pyval option" where
  "json_loads s =
     (case parse_value (length s) (skip_ws s) of
        None \<Rightarrow> None
      | Some (v, rest) \<Rightarrow> if skip_ws rest = [] then Some v else None)"

section \<open>Notions used in the proofs\<close>

text \<open>What may follow a number: the end of the text, or a character that continues no number.\<close>

definition number_end :: "string \<Rightarrow> bool" where
  "number_end rest =
     (rest = [] \<or> (\<not> is_digit (hd rest) \<and> hd rest \<noteq> CHR ''.''
                    \<and> hd rest \<noteq> CHR ''e'' \<and> hd rest \<noteq> CHR ''E''))"


text \<open>The characters a written value can start with.\<close>

definition value_start :: "char \<Rightarrow> bool" where
  "value_start c =
     (c = CHR 0x22 \<or> c = CHR ''['' \<or> c = CHR ''{'' \<or> c = CHR ''n'' \<or> c = CHR ''t''
      \<or> c = CHR ''f'' \<or> c = CHR ''-'' \<or> is_digit c)"


text \<open>
  No dictionary inside the value has two pairs with the same key, as in every Python
  dictionary.
\<close>

fun distinct_keys :: "pyval \<Rightarrow> bool"
  and all_distinct_keys :: "pyval list \<Rightarrow> bool"
  and members_distinct_keys :: "(string \<times> pyval) list \<Rightarrow> bool" where
  "distinct_keys PNone = True"
| "distinct_keys (PBool b) = True"
| "distinct_keys (PInt i) = True"
| "distinct_keys (PStr s) = True"
| "distinct_keys (PList xs) = all_distinct_keys xs"
| "distinct_keys (PDict kvs) = (distinct (map fst kvs) \<and> members_distinct_keys kvs)"
| "all_distinct_keys [] = True"
| "all_distinct_keys (x # xs) = (distinct_keys x \<and> all_distinct_keys xs)"
| "members_distinct_keys [] = True"
| "members_distinct_keys (kv # kvs) = (distinct_keys (snd kv) \<and> members_distinct_keys kvs)"

section \<open>The collection and its store\<close>

text \<open>
  The file \<^verbatim>\<open>books.json\<close> is modelled by what \<^verbatim>\<open>json.load\<close> makes of it: bytes that
  are not text in the default encoding (\<^verbatim>\<open>file.read()\<close> raises UnicodeDecodeError), text
  that is not JSON (JSONDecodeError), or a text that decodes to a value. A file found in
  the directory is given as one of the three; a file the program has written holds the
  text of \<open>json_dumps\<close>, and is what \<open>json_loads\<close> makes of that text. The file is taken to
  be writable.
\<close>

datatype file_content =
    Undecodable
  | NotJSON
  | JSON pyval

text \<open>
  The state: the attribute \<^verbatim>\<open>books_list\<close>, the content of the file named by
  \<^verbatim>\<open>storage_file\<close> (\<open>None\<close> when there is no such file), and the number of calls of
  \<^verbatim>\<open>save_to_file\<close> made so far, kept to tell a call that rewrites the same content
  from no call at all.
\<close>

record state =
  books_list :: pyval
  storage_file :: "file_content option"
  save_calls :: nat

definition read_from_file :: "state \<Rightarrow> error + state" where
  "read_from_file st =
     (case storage_file st of
        None \<Rightarrow> Inr (st\<lparr>books_list := PList []\<rparr>)
      | Some NotJSON \<Rightarrow> Inr (st\<lparr>books_list := PList []\<rparr>)
      | Some Undecodable \<Rightarrow> Inl UnicodeDecodeError
      | Some (JSON v) \<Rightarrow> Inr (st\<lparr>books_list := v\<rparr>))"

definition file_written :: "pyval \<Rightarrow> file_content" where
  "file_written v =
     (case json_loads (json_dumps v) of None \<Rightarrow> NotJSON | Some v' \<Rightarrow> JSON v')"

definition save_to_file :: "state \<Rightarrow> state" where
  "save_to_file st =
     st\<lparr>storage_file := Some (file_written (books_list st)),
        save_calls := Suc (save_calls st)\<rparr>"

text \<open>\<^verbatim>\<open>BookCollection()\<close> in a directory whose \<^verbatim>\<open>books.json\<close> is \<open>fs\<close>.\<close>

definition init :: "file_content option \<Rightarrow> error + state" where
  "init fs = read_from_file \<lparr>books_list = PList [], storage_file = fs, save_calls = 0\<rparr>"

text \<open>
  \<^verbatim>\<open>add_book\<close>: the arguments have the types the form passes, and \<open>today\<close> is the value
  of \<^verbatim>\<open>datetime.now().strftime("%Y-%m-%d")\<close>. Only a list has \<^verbatim>\<open>append\<close>.
\<close>

definition add_book :: "string \<Rightarrow> string \<Rightarrow> string \<Rightarrow> int \<Rightarrow> string \<Rightarrow> bool \<Rightarrow> state \<Rightarrow> error + state" where
  "add_book today title author year genre read st =
     (let new_book = PDict
        [(''title'', PStr title),
         (''author'', PStr author),
         (''year'', PInt year),
         (''genre'', PStr genre),
         (''read'', PBool read),
         (''date_added'', PStr today)]
      in case books_list st of
           PList bs \<Rightarrow> Inr (save_to_file (st\<lparr>books_list := PList (bs @ [new_book])\<rparr>))
         | _ \<Rightarrow> Inl AttributeError)"

text \<open>\<^verbatim>\<open>book["title"].lower() == title.lower()\<close>.\<close>

definition title_matches :: "pyval \<Rightarrow> string \<Rightarrow> error + bool" where
  "title_matches book title =
     (case py_getitem book ''title'' of
        Inl e \<Rightarrow> Inl e
      | Inr v \<Rightarrow> (case py_lower v of Inl e \<Rightarrow> Inl e | Inr s \<Rightarrow> Inr (s = lower title)))"

text \<open>
  \<^verbatim>\<open>delete_book\<close>: the list comprehension keeps the books whose lowered title differs
  from the lowered argument; an exception in it leaves the attribute as it was. The
  result is assigned and saved, whatever it is.
\<close>

fun delete_filter :: "pyval list \<Rightarrow> string \<Rightarrow> error + pyval list" where
  "delete_filter [] title = Inr []"
| "delete_filter (book # books) title =
     (case title_matches book title of
        Inl e \<Rightarrow> Inl e
      | Inr m \<Rightarrow>
          (case delete_filter books title of
             Inl e \<Rightarrow> Inl e
           | Inr kept \<Rightarrow> Inr (if m then kept else book # kept)))"

definition delete_book :: "string \<Rightarrow> state \<Rightarrow> error + state" where
  "delete_book title st =
     (case py_iter (books_list st) of
        Inl e \<Rightarrow> Inl e
      | Inr books \<Rightarrow>
          (case delete_filter books title of
             Inl e \<Rightarrow> Inl e
           | Inr kept \<Rightarrow> Inr (save_to_file (st\<lparr>books_list := PList kept\<rparr>))))"

text \<open>
  \<^verbatim>\<open>update_book\<close>: the loop stops at the first book whose title matches, updates that
  dictionary in place, saves and returns True; it returns False when it runs to the end.
  \<open>update_loop\<close> gives the list after the update, or \<open>None\<close> when no book matched. The
  elements of the list are distinct objects (\<^verbatim>\<open>json.load\<close> and \<^verbatim>\<open>add_book\<close> build
  fresh dictionaries), so updating one in place changes that position only. A book that
  matches is a dictionary, and a dictionary is only ever met when \<^verbatim>\<open>books_list\<close> is a
  list.
\<close>

fun update_loop :: "pyval list \<Rightarrow> string \<Rightarrow> (string \<times> pyval) list \<Rightarrow> error + pyval list option" where
  "update_loop [] title new_data = Inr None"
| "update_loop (book # books) title new_data =
     (case title_matches book title of
        Inl e \<Rightarrow> Inl e
      | Inr True \<Rightarrow>
          (case py_update book new_data of
             Inl e \<Rightarrow> Inl e
           | Inr book' \<Rightarrow> Inr (Some (book' # books)))
      | Inr False \<Rightarrow>
          (case update_loop books title new_data of
             Inl e \<Rightarrow> Inl e
           | Inr None \<Rightarrow> Inr None
           | Inr (Some books') \<Rightarrow> Inr (Some (book # books'))))"

definition update_book :: "string \<Rightarrow> (string \<times> pyval) list \<Rightarrow> state \<Rightarrow> error + (bool \<times> state)" where
  "update_book title new_data st =
     (case py_iter (books_list st) of
        Inl e \<Rightarrow> Inl e
      | Inr books \<Rightarrow>
          (case update_loop books title new_data of
             Inl e \<Rightarrow> Inl e
           | Inr None \<Rightarrow> Inr (False, st)
           | Inr (Some books') \<Rightarrow> Inr (True, save_to_file (st\<lparr>books_list := PList books'\<rparr>))))"

text \<open>
  \<^verbatim>\<open>get_reading_stats\<close>: the length, the number of books whose \<^verbatim>\<open>"read"\<close> is true,
  and the rate. \<^verbatim>\<open>completed_books / total_books * 100\<close> divides two \<^verbatim>\<open>int\<close>s into a
  \<^verbatim>\<open>float\<close> and multiplies that by 100, which is converted to the \<^verbatim>\<open>float\<close> 100.0: two
  operations, each rounded. The rate of an empty collection is the \<^verbatim>\<open>int\<close> 0.
\<close>

fun count_read :: "pyval list \<Rightarrow> error + nat" where
  "count_read [] = Inr 0"
| "count_read (book # books) =
     (case py_getitem book ''read'' of
        Inl e \<Rightarrow> Inl e
      | Inr r \<Rightarrow>
          (case count_read books of
             Inl e \<Rightarrow> Inl e
           | Inr n \<Rightarrow> Inr (if truthy r then Suc n else n)))"

definition get_reading_stats :: "state \<Rightarrow> error + (nat \<times> nat \<times> pynumber)" where
  "get_reading_stats st =
     (case py_len (books_list st) of
        Inl e \<Rightarrow> Inl e
      | Inr total_books \<Rightarrow>
          (case py_iter (books_list st) of
             Inl e \<Rightarrow> Inl e
           | Inr books \<Rightarrow>
               (case count_read books of
                  Inl e \<Rightarrow> Inl e
                | Inr completed_books \<Rightarrow>
                    (if total_books > 0
                     then (case py_truediv (int completed_books) (int total_books) of
                             Inl e \<Rightarrow> Inl e
                           | Inr q \<Rightarrow>
                               Inr (total_books, completed_books,
                                    PyFloat (py_float_mul q (Finite 100))))
                     else Inr (total_books, completed_books, PyInt 0)))))"

section \<open>The handlers of the page\<close>

text \<open>
  The submit branch of \<^verbatim>\<open>add_book_form\<close>: \<^verbatim>\<open>if title and author\<close> calls \<^verbatim>\<open>add_book\<close>
  and reports success; otherwise it reports an error and calls nothing. Both inputs are
  strings (\<^verbatim>\<open>st.text_input\<close>), and a string is true when it is not empty.
\<close>

datatype message =
    Success string
  | Error string

definition add_book_form :: "string \<Rightarrow> string \<Rightarrow> string \<Rightarrow> int \<Rightarrow> string \<Rightarrow> bool \<Rightarrow> state \<Rightarrow> error + (message \<times> state)" where
  "add_book_form today title author year genre read st =
     (if title \<noteq> [] \<and> author \<noteq> []
      then (case add_book today title author year genre read st of
              Inl e \<Rightarrow> Inl e
            | Inr st' \<Rightarrow>
                Inr (Success (''Book '' @ [CHR 0x27] @ title @ [CHR 0x27] @ '' has been added to your collection!''), st'))
      else Inr (Error ''Please fill in all required fields!'', st))"

text \<open>
  A card of a book, on the View Collection and on the Search Books page: the text
  formats \<^verbatim>\<open>book['title']\<close>, \<^verbatim>\<open>book['author']\<close>, \<^verbatim>\<open>book['year']\<close> and
  \<^verbatim>\<open>book['genre']\<close> and tests \<^verbatim>\<open>book['read']\<close>, in that order; any value can be formatted
  and tested. The card shows these four values and whether the book is read.
\<close>

definition book_card :: "pyval \<Rightarrow> error + (pyval \<times> pyval \<times> pyval \<times> pyval \<times> bool)" where
  "book_card book =
     (case py_getitem book ''title'' of
        Inl e \<Rightarrow> Inl e
      | Inr t \<Rightarrow>
          (case py_getitem book ''author'' of
             Inl e \<Rightarrow> Inl e
           | Inr a \<Rightarrow>
               (case py_getitem book ''year'' of
                  Inl e \<Rightarrow> Inl e
                | Inr y \<Rightarrow>
                    (case py_getitem book ''genre'' of
                       Inl e \<Rightarrow> Inl e
                     | Inr g \<Rightarrow>
                         (case py_getitem book ''read'' of
                            Inl e \<Rightarrow> Inl e
                          | Inr r \<Rightarrow> Inr (t, a, y, g, truthy r))))))"

text \<open>
  The options of the genre filter on the View Collection page:
  \<^verbatim>\<open>set(book["genre"] for book in books_list)\<close> reads the genre of every book, before
  any book is shown, and puts it into a set, which a list and a dictionary cannot be
  put into (TypeError). \<open>genre_options\<close> gives the genres read, in the order of the books;
  the order and the repetitions are lost in the set.
\<close>

definition hashable :: "pyval \<Rightarrow> bool" where
  "hashable v = (case v of PList xs \<Rightarrow> False | PDict kvs \<Rightarrow> False | _ \<Rightarrow> True)"

fun genre_options :: "pyval list \<Rightarrow> error + pyval list" where
  "genre_options [] = Inr []"
| "genre_options (book # books) =
     (case py_getitem book ''genre'' of
        Inl e \<Rightarrow> Inl e
      | Inr g \<Rightarrow>
          (if hashable g
           then (case genre_options books of
                   Inl e \<Rightarrow> Inl e
                 | Inr gs \<Rightarrow> Inr (g # gs))
           else Inl TypeError))"

text \<open>
  The loop of the View Collection page: a book is shown when the lowered search term
  occurs in its lowered title or in its lowered author, and the genre filter is
  \<^verbatim>\<open>"All"\<close> or equals the genre of the book. \<^verbatim>\<open>or\<close> and \<^verbatim>\<open>and\<close> evaluate their right
  operand only when the left one does not decide. The filter is a string (the option
  \<^verbatim>\<open>"All"\<close> or the genre of a book whose genre is a string), and a value equals a string
  only when it is that string. A book that is shown has its card and the key of its
  Delete button (its title once more) built before the next book is looked at. No
  button is pressed.
\<close>

definition genre_passes :: "string \<Rightarrow> pyval \<Rightarrow> error + bool" where
  "genre_passes filter_genre book =
     (if filter_genre = ''All'' then Inr True
      else (case py_getitem book ''genre'' of
              Inl e \<Rightarrow> Inl e
            | Inr g \<Rightarrow> Inr (g = PStr filter_genre)))"

definition view_shows :: "string \<Rightarrow> string \<Rightarrow> pyval \<Rightarrow> error + bool" where
  "view_shows search_term filter_genre book =
     (case py_getitem book ''title'' of
        Inl e \<Rightarrow> Inl e
      | Inr t \<Rightarrow>
          (case py_lower t of
             Inl e \<Rightarrow> Inl e
           | Inr title_lower \<Rightarrow>
               (if sublist (lower search_term) title_lower then genre_passes filter_genre book
                else (case py_getitem book ''author'' of
                        Inl e \<Rightarrow> Inl e
                      | Inr a \<Rightarrow>
                          (case py_lower a of
                             Inl e \<Rightarrow> Inl e
                           | Inr author_lower \<Rightarrow>
                               (if sublist (lower search_term) author_lower
                                then genre_passes filter_genre book
                                else Inr False))))))"

fun view_loop :: "string \<Rightarrow> string \<Rightarrow> pyval list \<Rightarrow> error + pyval list" where
  "view_loop search_term filter_genre [] = Inr []"
| "view_loop search_term filter_genre (book # books) =
     (case view_shows search_term filter_genre book of
        Inl e \<Rightarrow> Inl e
      | Inr True \<Rightarrow>
          (case book_card book of
             Inl e \<Rightarrow> Inl e
           | Inr shown_card \<Rightarrow>
               (case py_getitem book ''title'' of
                  Inl e \<Rightarrow> Inl e
                | Inr button_key \<Rightarrow>
                    (case view_loop search_term filter_genre books of
                       Inl e \<Rightarrow> Inl e
                     | Inr rest \<Rightarrow> Inr (book # rest))))
      | Inr False \<Rightarrow> view_loop search_term filter_genre books)"

text \<open>
  The View Collection page: the options of the filter, then the loop. The result is the
  list of the books shown.
\<close>

definition view_collection :: "string \<Rightarrow> string \<Rightarrow> state \<Rightarrow> error + pyval list" where
  "view_collection search_term filter_genre st =
     (case py_iter (books_list st) of
        Inl e \<Rightarrow> Inl e
      | Inr books \<Rightarrow>
          (case genre_options books of
             Inl e \<Rightarrow> Inl e
           | Inr genres \<Rightarrow> view_loop search_term filter_genre books))"

text \<open>
  The Search Books page: nothing is searched when the term is empty (\<open>None\<close>); otherwise
  \<^verbatim>\<open>results\<close> collects the books whose field chosen by \<^verbatim>\<open>search_type\<close> contains the
  lowered term, and then the card of each result is built. The result is the list
  \<^verbatim>\<open>results\<close>.
\<close>

datatype search_type = Title | Author

definition search_hit :: "search_type \<Rightarrow> string \<Rightarrow> pyval \<Rightarrow> error + bool" where
  "search_hit ty search_term book =
     (case py_getitem book (case ty of Title \<Rightarrow> ''title'' | Author \<Rightarrow> ''author'') of
        Inl e \<Rightarrow> Inl e
      | Inr f \<Rightarrow>
          (case py_lower f of
             Inl e \<Rightarrow> Inl e
           | Inr field_lower \<Rightarrow> Inr (sublist (lower search_term) field_lower)))"

fun search_loop :: "search_type \<Rightarrow> string \<Rightarrow> pyval list \<Rightarrow> error + pyval list" where
  "search_loop ty search_term [] = Inr []"
| "search_loop ty search_term (book # books) =
     (case search_hit ty search_term book of
        Inl e \<Rightarrow> Inl e
      | Inr hit \<Rightarrow>
          (case search_loop ty search_term books of
             Inl e \<Rightarrow> Inl e
           | Inr results \<Rightarrow> Inr (if hit then book # results else results)))"

fun show_results :: "pyval list \<Rightarrow> error + unit" where
  "show_results [] = Inr ()"
| "show_results (book # results) =
     (case book_card book of
        Inl e \<Rightarrow> Inl e
      | Inr shown_card \<Rightarrow> show_results results)"

definition search_books :: "search_type \<Rightarrow> string \<Rightarrow> state \<Rightarrow> error + pyval list option" where
  "search_books ty search_term st =
     (if search_term \<noteq> []
      then (case py_iter (books_list st) of
              Inl e \<Rightarrow> Inl e
            | Inr books \<Rightarrow>
                (case search_loop ty search_term books of
                   Inl e \<Rightarrow> Inl e
                 | Inr results \<Rightarrow>
                     (case show_results results of
                        Inl e \<Rightarrow> Inl e
                      | Inr shown \<Rightarrow> Inr (Some results))))
      else Inr None)"

section \<open>Records as the specification describes them\<close>

text \<open>The string stored under a key of a dictionary, when there is one.\<close>

definition str_field :: "string \<Rightarrow> pyval \<Rightarrow> string option" where
  "str_field key book =
     (case book of
        PDict kvs \<Rightarrow> (case map_of kvs key of Some (PStr s) \<Rightarrow> Some s | _ \<Rightarrow> None)
      | _ \<Rightarrow> None)"

text \<open>The title of the book equals the argument, compared case-insensitively.\<close>

definition same_title :: "string \<Rightarrow> pyval \<Rightarrow> bool" where
  "same_title title book =
     (case str_field ''title'' book of Some s \<Rightarrow> lower s = lower title | None \<Rightarrow> False)"

text \<open>The boolean stored under \<^verbatim>\<open>"read"\<close>, when there is one.\<close>

definition read_flag :: "pyval \<Rightarrow> bool option" where
  "read_flag book =
     (case book of
        PDict kvs \<Rightarrow> (case map_of kvs ''read'' of Some (PBool b) \<Rightarrow> Some b | _ \<Rightarrow> None)
      | _ \<Rightarrow> None)"

text \<open>The field of the book contains the term, compared case-insensitively.\<close>

definition field_contains :: "string \<Rightarrow> string \<Rightarrow> pyval \<Rightarrow> bool" where
  "field_contains key search_term book =
     (case str_field key book of Some s \<Rightarrow> sublist (lower search_term) (lower s) | None \<Rightarrow> False)"

text \<open>The dictionary has the key.\<close>

definition has_field :: "string \<Rightarrow> pyval \<Rightarrow> bool" where
  "has_field key book = (case book of PDict kvs \<Rightarrow> map_of kvs key \<noteq> None | _ \<Rightarrow> False)"

text \<open>
  A record whose card can be shown: its title, its author and its genre are strings,
  and it has a year and a read flag.
\<close>

definition displayable :: "pyval \<Rightarrow> bool" where
  "displayable book =
     (str_field ''title'' book \<noteq> None \<and> str_field ''author'' book \<noteq> None
      \<and> str_field ''genre'' book \<noteq> None
      \<and> has_field ''year'' book \<and> has_field ''read'' book)"

section \<open>A shelf to try the operations on\<close>

definition foundation :: pyval where
  "foundation = PDict
     [(''title'', PStr ''Foundation''),
      (''author'', PStr ''Asimov''),
      (''year'', PInt 1951),
      (''genre'', PStr ''Science Fiction''),
      (''read'', PBool False),
      (''date_added'', PStr ''2024-03-01'')]"

definition dune :: pyval where
  "dune = PDict
     [(''title'', PStr ''Dune''),
      (''author'', PStr ''Herbert''),
      (''year'', PInt 1965),
      (''genre'', PStr ''Science Fiction''),
      (''read'', PBool False),
      (''date_added'', PStr ''2024-03-02'')]"

definition dune_messiah :: pyval where
  "dune_messiah = PDict
     [(''title'', PStr ''Dune Messiah''),
      (''author'', PStr ''Herbert''),
      (''year'', PInt 1969),
      (''genre'', PStr ''Science Fiction''),
      (''read'', PBool True),
      (''date_added'', PStr ''2024-03-03'')]"

definition dune_again :: pyval where
  "dune_again = PDict
     [(''title'', PStr ''DUNE''),
      (''author'', PStr ''Other''),
      (''year'', PInt 1970),
      (''genre'', PStr ''Fiction''),
      (''read'', PBool True),
      (''date_added'', PStr ''2024-03-04'')]"

text \<open>Four books, saved; two of them are titled Dune up to case.\<close>

definition shelf :: state where
  "shelf = \<lparr>books_list = PList [foundation, dune, dune_messiah, dune_again],
            storage_file = Some (JSON (PList [foundation, dune, dune_messiah, dune_again])),
            save_calls = 0\<rparr>"

text \<open>A new collection in a directory that has no \<^verbatim>\<open>books.json\<close>.\<close>

definition empty_dir :: state where
  "empty_dir = \<lparr>books_list = PList [], storage_file = None, save_calls = 0\<rparr>"

section \<open>Lower case\<close>

text \<open>
  The table of \<open>lower_char\<close> is the rule of \<^verbatim>\<open>str.lower()\<close> on the code points 0 to 255: a
  character is changed when its code is between 65 and 90 (A to Z) or between 192 and
  222 without 215 (the capital letters of Latin-1), and then its code grows by 32.
\<close>

lemma lower_char_code:
  "(of_char (lower_char c) :: nat) =
     (if (65 \<le> (of_char c :: nat) \<and> (of_char c :: nat) \<le> 90)
         \<or> (192 \<le> (of_char c :: nat) \<and> (of_char c :: nat) \<le> 222
             \<and> (of_char c :: nat) \<noteq> 215)
      then of_char c + 32
      else of_char c)"
proof (cases c)
  case (Char b0 b1 b2 b3 b4 b5 b6 b7)
  then show ?thesis
    by (cases b0; cases b1; cases b2; cases b3; cases b4; cases b5; cases b6; cases b7)
      (simp_all add: lower_char_def upper_letters_def lower_letters_def)
qed

text \<open>
  A title with a capital E acute (code 201) equals, case-insensitively, the title with
  the small one (code 233).
\<close>

lemma same_title_latin1:
  "same_title [CHR 0xC9, CHR ''c'', CHR ''o'', CHR ''l'', CHR ''e'']
     (PDict [(''title'', PStr [CHR 0xE9, CHR ''C'', CHR ''O'', CHR ''L'', CHR ''E''])])"
  by (simp add: same_title_def str_field_def lower_def lower_char_def upper_letters_def
      lower_letters_def)

section \<open>Dictionaries\<close>

lemma map_of_dict_setitem: "map_of (dict_setitem k v kvs) = (map_of kvs)(k \<mapsto> v)"
  by (induction kvs) (auto simp: fun_eq_iff)

lemma map_of_dict_update:
  "map_of (dict_update kvs new_data) = map_of kvs ++ map_of (rev new_data)"
  by (induction new_data arbitrary: kvs)
    (auto simp: map_of_dict_setitem fun_eq_iff map_add_def split: option.splits)

lemma keys_dict_setitem: "fst ` set (dict_setitem k v kvs) = insert k (fst ` set kvs)"
  by (induction kvs) auto

lemma keys_dict_update:
  "fst ` set (dict_update kvs new_data) = fst ` set kvs \<union> fst ` set new_data"
  by (induction new_data arbitrary: kvs) (auto simp: keys_dict_setitem)

lemma map_of_rev_distinct: "distinct (map fst kvs) \<Longrightarrow> map_of (rev kvs) = map_of kvs"
  by (rule map_of_inject_set[THEN iffD2]) (simp_all add: rev_map[symmetric])

section \<open>Reading what was written\<close>

subsection \<open>Digits and integers\<close>

lemma below_10: "(d::nat) < 10 \<Longrightarrow> d \<in> {0, 1, 2, 3, 4, 5, 6, 7, 8, 9}"
  by auto

lemma below_16: "(d::nat) < 16 \<Longrightarrow> d \<in> {0, 1, 2, 3, 4, 5, 6, 7, 8, 9, 10, 11, 12, 13, 14, 15}"
  by (simp add: insert_iff) arith

lemma digit_char_code: "d < 10 \<Longrightarrow> (of_char (digit_char d) :: nat) = 48 + d"
  by (drule below_10) (auto simp: digit_char_def)

lemma hex_val_hex_char: "n < 16 \<Longrightarrow> hex_val (hex_char n) = Some n"
  by (drule below_16) (auto simp: hex_char_def hex_val_def)

lemma is_digit_digit_char: "d < 10 \<Longrightarrow> is_digit (digit_char d)"
  by (simp add: is_digit_def digit_char_code)

lemma digit_val_digit_char: "d < 10 \<Longrightarrow> digit_val (digit_char d) = d"
  by (simp add: digit_val_def digit_char_code)

lemma digit_char_zero: "d < 10 \<Longrightarrow> digit_char d = CHR ''0'' \<longleftrightarrow> d = 0"
  by (drule below_10) (auto simp: digit_char_def)

lemma dec_text_nonempty: "dec_text n \<noteq> []"
  by (subst dec_text.simps) simp

lemma dec_text_digits: "c \<in> set (dec_text n) \<Longrightarrow> is_digit c"
proof (induction n arbitrary: c rule: dec_text.induct)
  case (1 n)
  show ?case
  proof (cases "n < 10")
    case True
    with "1.prems" show ?thesis
      by (subst (asm) dec_text.simps) (simp add: is_digit_digit_char)
  next
    case False
    with "1.prems" have "c \<in> set (dec_text (n div 10)) \<or> c = digit_char (n mod 10)"
      by (subst (asm) dec_text.simps) auto
    with False "1.IH" show ?thesis
      by (auto simp: is_digit_digit_char)
  qed
qed

lemma digits_val_snoc: "digits_val (ds @ [c]) = 10 * digits_val ds + digit_val c"
  by (simp add: digits_val_def)

lemma digits_val_dec_text: "digits_val (dec_text n) = n"
proof (induction n rule: dec_text.induct)
  case (1 n)
  show ?case
  proof (cases "n < 10")
    case True
    then show ?thesis
      by (subst dec_text.simps) (simp add: digits_val_def digit_val_digit_char)
  next
    case False
    with "1.IH" show ?thesis
      by (subst dec_text.simps) (simp add: digits_val_snoc digit_val_digit_char)
  qed
qed

lemma hd_dec_text_zero: "hd (dec_text n) = CHR ''0'' \<longleftrightarrow> n = 0"
proof (induction n rule: dec_text.induct)
  case (1 n)
  show ?case
  proof (cases "n < 10")
    case True
    then show ?thesis
      by (subst dec_text.simps) (simp add: digit_char_zero)
  next
    case False
    then have "n div 10 \<noteq> 0"
      by simp
    with False "1.IH" show ?thesis
      by (subst dec_text.simps) (simp add: dec_text_nonempty)
  qed
qed

lemma dec_text_zero: "dec_text 0 = ''0''"
  by (subst dec_text.simps) (simp add: digit_char_def)

lemma takeWhile_digits:
  "number_end rest \<Longrightarrow> takeWhile is_digit (dec_text n @ rest) = dec_text n"
  by (cases rest) (auto simp: number_end_def takeWhile_append dec_text_digits
      intro: takeWhile_eq_all_conv[THEN iffD2])

lemma int_digits_dec_text:
  assumes "number_end rest"
  shows "int_digits (dec_text n @ rest) = dec_text n"
proof (cases "n = 0")
  case True
  then show ?thesis
    by (simp add: int_digits_def dec_text_zero)
next
  case False
  then have "hd (dec_text n @ rest) \<noteq> CHR ''0''"
    by (simp add: dec_text_nonempty hd_dec_text_zero)
  with assms show ?thesis
    by (simp add: int_digits_def takeWhile_digits)
qed

lemma is_digit_hd_dec_text: "is_digit (hd (dec_text n @ rest))"
  using dec_text_digits [of "hd (dec_text n)" n] by (simp add: dec_text_nonempty)

lemma hd_dec_text_not_minus: "hd (dec_text n @ rest) \<noteq> CHR ''-''"
  using is_digit_hd_dec_text [of n rest] by (auto simp: is_digit_def)

lemma number_end_no_float:
  "number_end rest \<Longrightarrow>
   \<not> (rest \<noteq> [] \<and> (hd rest = CHR ''.'' \<or> hd rest = CHR ''e'' \<or> hd rest = CHR ''E''))"
  by (auto simp: number_end_def)

lemma parse_number_int_text:
  assumes "number_end rest"
  shows "parse_number (int_text i @ rest) = Some (PInt i, rest)"
proof (cases "i < 0")
  case True
  then show ?thesis
    using number_end_no_float [OF assms]
    by (simp add: parse_number_def int_text_def Let_def dec_text_nonempty is_digit_hd_dec_text
        int_digits_dec_text [OF assms] digits_val_dec_text del: hd_append2)
next
  case False
  then show ?thesis
    using number_end_no_float [OF assms]
    by (simp add: parse_number_def int_text_def Let_def dec_text_nonempty is_digit_hd_dec_text
        hd_dec_text_not_minus int_digits_dec_text [OF assms] digits_val_dec_text
        del: hd_append2)
qed

subsection \<open>Strings\<close>

lemma parse_chars_escape:
  "unescape e = Some c \<Longrightarrow> e \<noteq> CHR ''u''
   \<Longrightarrow> parse_chars (CHR 0x5C # e # t) = cons_result c (parse_chars t)"
  by simp

lemma parse_chars_plain:
  "c \<noteq> CHR 0x22 \<Longrightarrow> c \<noteq> CHR 0x5C \<Longrightarrow> \<not> (of_char c :: nat) < 32
   \<Longrightarrow> parse_chars (c # t) = cons_result c (parse_chars t)"
  by simp

lemma hex_val_zero: "hex_val CHR ''0'' = Some 0"
  by (simp add: hex_val_def)

lemma parse_chars_u:
  assumes "n < 256"
  shows "parse_chars (CHR 0x5C # CHR ''u'' # CHR ''0'' # CHR ''0''
           # hex_char (n div 16) # hex_char (n mod 16) # t)
         = cons_result (char_of n) (parse_chars t)"
proof -
  from assms have "n div 16 < 16"
    by simp
  then have "hex_val (hex_char (n div 16)) = Some (n div 16)"
    by (rule hex_val_hex_char)
  moreover have "hex_val (hex_char (n mod 16)) = Some (n mod 16)"
    by (rule hex_val_hex_char) simp
  moreover have "((0 * 16 + 0) * 16 + n div 16) * 16 + n mod 16 = n"
    by simp
  ultimately show ?thesis
    using assms by (simp add: hex_val_zero)
qed

lemma parse_chars_escape_char:
  "parse_chars (escape_char c @ t) = cons_result c (parse_chars t)"
proof -
  have u: "parse_chars (CHR 0x5C # CHR ''u'' # CHR ''0'' # CHR ''0''
           # hex_char ((of_char c :: nat) div 16) # hex_char ((of_char c :: nat) mod 16) # t)
         = cons_result c (parse_chars t)"
    using parse_chars_u [of "of_char c" t] by simp
  show ?thesis
    unfolding escape_char_def
    by (simp add: parse_chars_escape unescape_def u del: parse_chars.simps)
      (simp add: parse_chars_plain del: parse_chars.simps)
qed

lemma parse_chars_str:
  "parse_chars (concat (map escape_char s) @ CHR 0x22 # rest) = Some (s, rest)"
proof (induction s)
  case Nil
  show ?case by simp
next
  case (Cons c s)
  then show ?case
    by (simp add: parse_chars_escape_char cons_result_def del: parse_chars.simps)
qed

subsection \<open>Dictionaries with distinct keys\<close>

lemma dict_setitem_fresh: "k \<notin> fst ` set kvs \<Longrightarrow> dict_setitem k v kvs = kvs @ [(k, v)]"
  by (induction kvs) auto

lemma dict_update_fresh:
  "distinct (map fst new_data) \<Longrightarrow> fst ` set kvs \<inter> fst ` set new_data = {}
   \<Longrightarrow> dict_update kvs new_data = kvs @ new_data"
proof (induction new_data arbitrary: kvs)
  case Nil
  then show ?case by simp
next
  case (Cons kv new_data)
  then have "dict_setitem (fst kv) (snd kv) kvs = kvs @ [kv]"
    by (simp add: dict_setitem_fresh)
  moreover from Cons.prems have "fst ` set (kvs @ [kv]) \<inter> fst ` set new_data = {}"
    by auto
  ultimately show ?case
    using Cons by simp
qed

lemma dict_update_empty: "distinct (map fst kvs) \<Longrightarrow> dict_update [] kvs = kvs"
  by (simp add: dict_update_fresh)

subsection \<open>White space and the first character of a value\<close>

lemma skip_ws_newline_indent: "skip_ws (newline_indent level @ s) = skip_ws s"
  by (simp add: skip_ws_def newline_indent_def is_ws_def dropWhile_append)

lemma skip_ws_start: "s \<noteq> [] \<Longrightarrow> \<not> is_ws (hd s) \<Longrightarrow> skip_ws (s @ t) = s @ t"
  by (cases s) (simp_all add: skip_ws_def)

lemma number_end_comma: "number_end (CHR '','' # s)"
  by (simp add: number_end_def is_digit_def)

lemma number_end_newline: "number_end (newline_indent level @ s)"
  by (simp add: number_end_def newline_indent_def is_digit_def)

lemma not_prefix_hd: "s \<noteq> [] \<Longrightarrow> hd s \<noteq> c \<Longrightarrow> \<not> prefix (c # cs) s"
  by (cases s) simp_all

lemma value_start_facts:
  "value_start c \<Longrightarrow> \<not> is_ws c \<and> c \<noteq> CHR '']'' \<and> c \<noteq> CHR ''}''"
  by (auto simp: value_start_def is_ws_def is_digit_def)

lemma int_text_nonempty: "int_text i \<noteq> []"
  by (simp add: int_text_def dec_text_nonempty)

lemma hd_int_text: "hd (int_text i) = CHR ''-'' \<or> is_digit (hd (int_text i))"
  using is_digit_hd_dec_text [of "nat i" "[]"] by (simp add: int_text_def)

lemma json_text_start: "json_text level v \<noteq> [] \<and> value_start (hd (json_text level v))"
proof (cases v)
  case (PInt i)
  then show ?thesis
    using hd_int_text [of i] by (auto simp: int_text_nonempty value_start_def)
qed (simp_all add: value_start_def str_text_def)

lemma items_text_start:
  "xs \<noteq> [] \<Longrightarrow> items_text level xs \<noteq> [] \<and> value_start (hd (items_text level xs))"
proof (cases xs)
  case Nil
  then show "xs \<noteq> [] \<Longrightarrow> ?thesis" by simp
next
  case (Cons x ys)
  then show ?thesis
    using json_text_start [of level x] by (cases ys) auto
qed

lemma members_text_start:
  "kvs \<noteq> [] \<Longrightarrow> members_text level kvs \<noteq> [] \<and> hd (members_text level kvs) = CHR 0x22"
proof (cases kvs)
  case Nil
  then show "kvs \<noteq> [] \<Longrightarrow> ?thesis" by simp
next
  case (Cons kv kvs')
  then show ?thesis
    by (cases kvs') (auto simp: str_text_def)
qed

subsection \<open>One step of the reader on each form of text\<close>

lemma parse_value_null: "parse_value (Suc n) (''null'' @ rest) = Some (PNone, rest)"
  by simp

lemma parse_value_true: "parse_value (Suc n) (''true'' @ rest) = Some (PBool True, rest)"
  by simp

lemma parse_value_false: "parse_value (Suc n) (''false'' @ rest) = Some (PBool False, rest)"
  by simp

lemma parse_value_str: "parse_value (Suc n) (str_text s @ rest) = Some (PStr s, rest)"
  by (simp add: str_text_def parse_chars_str del: parse_chars.simps)

lemma parse_value_number:
  assumes "s \<noteq> []" and "hd s = CHR ''-'' \<or> is_digit (hd s)"
  shows "parse_value (Suc n) s = parse_number s"
proof -
  from assms(2) have "hd s \<noteq> CHR 0x22" "hd s \<noteq> CHR ''[''" "hd s \<noteq> CHR ''{''"
    "hd s \<noteq> CHR ''n''" "hd s \<noteq> CHR ''t''" "hd s \<noteq> CHR ''f''"
    by (auto simp: is_digit_def)
  with assms(1) show ?thesis
    by (simp add: not_prefix_hd)
qed

lemma parse_value_int:
  assumes "number_end rest"
  shows "parse_value (Suc n) (int_text i @ rest) = Some (PInt i, rest)"
proof -
  have "int_text i @ rest \<noteq> []"
    by (simp add: int_text_nonempty)
  moreover have "hd (int_text i @ rest) = CHR ''-'' \<or> is_digit (hd (int_text i @ rest))"
    using hd_int_text [of i] by (simp add: int_text_nonempty)
  ultimately have "parse_value (Suc n) (int_text i @ rest) = parse_number (int_text i @ rest)"
    by (rule parse_value_number)
  with assms show ?thesis
    by (simp add: parse_number_int_text)
qed

lemma parse_value_empty_list: "parse_value (Suc n) (''[]'' @ rest) = Some (PList [], rest)"
  by (simp add: skip_ws_def is_ws_def)

lemma parse_value_empty_dict: "parse_value (Suc n) (''{}'' @ rest) = Some (PDict [], rest)"
  by (simp add: skip_ws_def is_ws_def)

lemma parse_value_list:
  assumes "body \<noteq> []" and "value_start (hd body)"
    and "parse_items n (body @ t) = Some (xs, rest)"
  shows "parse_value (Suc n) (''['' @ newline_indent level @ body @ t) = Some (PList xs, rest)"
proof -
  from assms(1,2) have "skip_ws (newline_indent level @ body @ t) = body @ t"
    by (simp add: skip_ws_newline_indent skip_ws_start value_start_facts)
  moreover from assms(1,2) have "hd (body @ t) \<noteq> CHR '']''"
    by (simp add: value_start_facts)
  ultimately show ?thesis
    using assms(3) by simp
qed

lemma parse_value_dict:
  assumes "body \<noteq> []" and "hd body = CHR 0x22"
    and "parse_members n (body @ t) = Some (kvs, rest)"
    and "distinct (map fst kvs)"
  shows "parse_value (Suc n) (''{'' @ newline_indent level @ body @ t) = Some (PDict kvs, rest)"
proof -
  from assms(1,2) have "skip_ws (newline_indent level @ body @ t) = body @ t"
    by (simp add: skip_ws_newline_indent skip_ws_start is_ws_def)
  moreover from assms(1,2) have "hd (body @ t) \<noteq> CHR ''}''"
    by simp
  ultimately show ?thesis
    using assms(3,4) by (simp add: dict_update_empty)
qed

lemma skip_ws_close: "c = CHR '']'' \<or> c = CHR ''}'' \<or> c = CHR '','' \<or> c = CHR '':''
  \<Longrightarrow> skip_ws (c # s) = c # s"
  by (auto simp: skip_ws_def is_ws_def)

lemma parse_items_last:
  assumes "parse_value n (t @ newline_indent level @ CHR '']'' # rest)
           = Some (x, newline_indent level @ CHR '']'' # rest)"
  shows "parse_items (Suc n) (t @ newline_indent level @ CHR '']'' # rest) = Some ([x], rest)"
  using assms by (simp add: skip_ws_newline_indent skip_ws_close)

lemma parse_items_more:
  assumes "parse_value n (t @ '','' @ newline_indent level @ body @ u)
           = Some (x, '','' @ newline_indent level @ body @ u)"
    and "body \<noteq> []" and "value_start (hd body)"
    and "parse_items n (body @ u) = Some (xs, rest)"
  shows "parse_items (Suc n) (t @ '','' @ newline_indent level @ body @ u) = Some (x # xs, rest)"
proof -
  from assms(2,3) have "skip_ws (newline_indent level @ body @ u) = body @ u"
    by (simp add: skip_ws_newline_indent skip_ws_start value_start_facts)
  with assms(1,4) show ?thesis
    by (simp add: skip_ws_close cons_result_def)
qed

lemma skip_ws_space: "skip_ws (CHR '' '' # s) = skip_ws s"
  by (simp add: skip_ws_def is_ws_def)

lemma parse_members_last:
  assumes "t \<noteq> []" and "value_start (hd t)"
    and "parse_value n (t @ newline_indent level @ CHR ''}'' # rest)
           = Some (x, newline_indent level @ CHR ''}'' # rest)"
  shows "parse_members (Suc n) (str_text k @ '': '' @ t @ newline_indent level @ CHR ''}'' # rest)
         = Some ([(k, x)], rest)"
proof -
  have key: "parse_chars (concat (map escape_char k) @ CHR 0x22 # '': '' @ t @ u)
      = Some (k, '': '' @ t @ u)" for u
    by (rule parse_chars_str)
  from assms(1,2) have "skip_ws (t @ u) = t @ u" for u
    by (simp add: skip_ws_start value_start_facts)
  with assms(3) show ?thesis
    using key [of "newline_indent level @ CHR ''}'' # rest"]
    by (simp add: str_text_def skip_ws_close skip_ws_space skip_ws_newline_indent
        del: parse_chars.simps)
qed

lemma parse_members_more:
  assumes "t \<noteq> []" and "value_start (hd t)"
    and "parse_value n (t @ '','' @ newline_indent level @ body @ u)
           = Some (x, '','' @ newline_indent level @ body @ u)"
    and "body \<noteq> []" and "hd body = CHR 0x22"
    and "parse_members n (body @ u) = Some (kvs, rest)"
  shows "parse_members (Suc n) (str_text k @ '': '' @ t @ '','' @ newline_indent level @ body @ u)
         = Some ((k, x) # kvs, rest)"
proof -
  have key: "parse_chars (concat (map escape_char k) @ CHR 0x22 # '': '' @ t @ w)
      = Some (k, '': '' @ t @ w)" for w
    by (rule parse_chars_str)
  from assms(1,2) have "skip_ws (t @ w) = t @ w" for w
    by (simp add: skip_ws_start value_start_facts)
  moreover from assms(4,5) have "skip_ws (newline_indent level @ body @ u) = body @ u"
    by (simp add: skip_ws_newline_indent skip_ws_start is_ws_def)
  ultimately show ?thesis
    using assms(3,6) key [of "'','' @ newline_indent level @ body @ u"]
    by (simp add: str_text_def skip_ws_close skip_ws_space cons_result_def
        del: parse_chars.simps)
qed

subsection \<open>A written value is read back\<close>

declare parse_value.simps [simp del] parse_items.simps [simp del] parse_members.simps [simp del]

lemma length_newline_indent: "length (newline_indent level) = Suc (4 * level)"
  by (simp add: newline_indent_def)

lemma parse_json_text:
  "distinct_keys v \<Longrightarrow> length (json_text level v) \<le> n \<Longrightarrow> number_end rest
   \<Longrightarrow> parse_value n (json_text level v @ rest) = Some (v, rest)"
  "xs \<noteq> [] \<Longrightarrow> all_distinct_keys xs \<Longrightarrow> length (items_text level xs) < n
   \<Longrightarrow> parse_items n (items_text level xs @ newline_indent l' @ CHR '']'' # rest) = Some (xs, rest)"
  "kvs \<noteq> [] \<Longrightarrow> members_distinct_keys kvs \<Longrightarrow> length (members_text level kvs) < n
   \<Longrightarrow> parse_members n (members_text level kvs @ newline_indent l' @ CHR ''}'' # rest)
       = Some (kvs, rest)"
proof (induction level v and level xs and level kvs
    arbitrary: n rest and n l' rest and n l' rest
    rule: json_text_items_text_members_text.induct)
  case (1 level)
  then obtain m where "n = Suc m"
    by (cases n) auto
  then show ?case
    using parse_value_null [of m rest] by simp
next
  case (2 level b)
  then obtain m where "n = Suc m"
    by (cases n) (auto split: if_splits)
  then show ?case
    using parse_value_true [of m rest] parse_value_false [of m rest] by simp
next
  case (3 level i)
  then obtain m where "n = Suc m"
    by (cases n) (auto simp: int_text_nonempty)
  with "3.prems" show ?case
    by (simp add: parse_value_int)
next
  case (4 level s)
  then obtain m where "n = Suc m"
    by (cases n) (auto simp: str_text_def)
  then show ?case
    by (simp add: parse_value_str)
next
  case (5 level xs)
  show ?case
  proof (cases "xs = []")
    case True
    with "5.prems" obtain m where "n = Suc m"
      by (cases n) auto
    with True show ?thesis
      using parse_value_empty_list [of m rest] by simp
  next
    case False
    with "5.prems" obtain m where n: "n = Suc m"
      by (cases n) auto
    from False "5.prems" n have "length (items_text (Suc level) xs) < m"
      by (simp add: length_newline_indent)
    with False "5.prems" have "parse_items m
        (items_text (Suc level) xs @ newline_indent level @ CHR '']'' # rest) = Some (xs, rest)"
      by (intro "5.IH") simp_all
    with items_text_start [OF False, of "Suc level"]
    have "parse_value (Suc m) (''['' @ newline_indent (Suc level) @ items_text (Suc level) xs
            @ newline_indent level @ CHR '']'' # rest) = Some (PList xs, rest)"
      by (intro parse_value_list) simp_all
    with False n show ?thesis
      by simp
  qed
next
  case (6 level kvs)
  show ?case
  proof (cases "kvs = []")
    case True
    with "6.prems" obtain m where "n = Suc m"
      by (cases n) auto
    with True show ?thesis
      using parse_value_empty_dict [of m rest] by simp
  next
    case False
    with "6.prems" obtain m where n: "n = Suc m"
      by (cases n) auto
    from False "6.prems" n have "length (members_text (Suc level) kvs) < m"
      by (simp add: length_newline_indent)
    with False "6.prems" have "parse_members m
        (members_text (Suc level) kvs @ newline_indent level @ CHR ''}'' # rest)
        = Some (kvs, rest)"
      by (intro "6.IH") simp_all
    with members_text_start [OF False, of "Suc level"] "6.prems"(1)
    have "parse_value (Suc m) (''{'' @ newline_indent (Suc level) @ members_text (Suc level) kvs
            @ newline_indent level @ CHR ''}'' # rest) = Some (PDict kvs, rest)"
      by (intro parse_value_dict) simp_all
    with False n show ?thesis
      by simp
  qed
next
  case (7 level)
  then show ?case by simp
next
  case (8 level x)
  then obtain m where n: "n = Suc m"
    by (cases n) auto
  with "8.prems" have "parse_value m (json_text level x @ newline_indent l' @ CHR '']'' # rest)
      = Some (x, newline_indent l' @ CHR '']'' # rest)"
    by (intro "8.IH") (simp_all add: number_end_newline)
  then have "parse_items (Suc m) (json_text level x @ newline_indent l' @ CHR '']'' # rest)
      = Some ([x], rest)"
    by (rule parse_items_last)
  with n show ?case
    by simp
next
  case (9 level x y ys)
  then obtain m where n: "n = Suc m"
    by (cases n) auto
  let ?body = "items_text level (y # ys)"
  let ?u = "newline_indent l' @ CHR '']'' # rest"
  from "9.prems" n have "parse_value m
      (json_text level x @ '','' @ newline_indent level @ ?body @ ?u)
      = Some (x, '','' @ newline_indent level @ ?body @ ?u)"
    by (intro "9.IH"(1)) (simp_all add: number_end_comma)
  moreover from "9.prems" n have "parse_items m (?body @ ?u) = Some (y # ys, rest)"
    by (intro "9.IH"(2)) (simp_all add: length_newline_indent)
  moreover have "?body \<noteq> []" "value_start (hd ?body)"
    using items_text_start [of "y # ys" level] by simp_all
  ultimately have "parse_items (Suc m)
      (json_text level x @ '','' @ newline_indent level @ ?body @ ?u) = Some (x # y # ys, rest)"
    by (intro parse_items_more)
  with n show ?case
    by simp
next
  case (10 level)
  then show ?case by simp
next
  case (11 level kv)
  then obtain m where n: "n = Suc m"
    by (cases n) auto
  with "11.prems" have "parse_value m
      (json_text level (snd kv) @ newline_indent l' @ CHR ''}'' # rest)
      = Some (snd kv, newline_indent l' @ CHR ''}'' # rest)"
    by (intro "11.IH") (simp_all add: number_end_newline)
  with json_text_start [of level "snd kv"]
  have "parse_members (Suc m) (str_text (fst kv) @ '': '' @ json_text level (snd kv)
      @ newline_indent l' @ CHR ''}'' # rest) = Some ([(fst kv, snd kv)], rest)"
    by (intro parse_members_last) simp_all
  with n show ?case
    by simp
next
  case (12 level kv kv' kvs)
  then obtain m where n: "n = Suc m"
    by (cases n) auto
  let ?body = "members_text level (kv' # kvs)"
  let ?u = "newline_indent l' @ CHR ''}'' # rest"
  from "12.prems" n have "parse_value m
      (json_text level (snd kv) @ '','' @ newline_indent level @ ?body @ ?u)
      = Some (snd kv, '','' @ newline_indent level @ ?body @ ?u)"
    by (intro "12.IH"(1)) (simp_all add: number_end_comma)
  moreover from "12.prems" n have "parse_members m (?body @ ?u) = Some (kv' # kvs, rest)"
    by (intro "12.IH"(2)) (simp_all add: length_newline_indent)
  moreover have "?body \<noteq> []" "hd ?body = CHR 0x22"
    using members_text_start [of "kv' # kvs" level] by simp_all
  moreover have "json_text level (snd kv) \<noteq> []" "value_start (hd (json_text level (snd kv)))"
    using json_text_start [of level "snd kv"] by simp_all
  ultimately have "parse_members (Suc m)
      (str_text (fst kv) @ '': '' @ json_text level (snd kv) @ '','' @ newline_indent level
        @ ?body @ ?u) = Some ((fst kv, snd kv) # kv' # kvs, rest)"
    by (intro parse_members_more)
  with n show ?case
    by simp
qed

lemma json_loads_json_dumps: "distinct_keys v \<Longrightarrow> json_loads (json_dumps v) = Some v"
proof -
  assume "distinct_keys v"
  then have "parse_value (length (json_text 0 v)) (json_text 0 v @ []) = Some (v, [])"
    by (intro parse_json_text(1)) (simp_all add: number_end_def)
  moreover have "skip_ws (json_text 0 v) = json_text 0 v"
    using json_text_start [of 0 v] skip_ws_start [of "json_text 0 v" "[]"]
    by (simp add: value_start_facts)
  ultimately show ?thesis
    by (simp add: json_loads_def json_dumps_def skip_ws_def)
qed

lemma file_written_distinct_keys: "distinct_keys v \<Longrightarrow> file_written v = JSON v"
  by (simp add: file_written_def json_loads_json_dumps)

section \<open>Matching a title\<close>

lemma title_matches_titled:
  "str_field ''title'' book \<noteq> None \<Longrightarrow> title_matches book title = Inr (same_title title book)"
  by (auto simp: str_field_def title_matches_def same_title_def py_getitem_def py_lower_def
      split: pyval.splits option.splits)

lemma delete_filter_titled:
  "\<forall>book \<in> set books. str_field ''title'' book \<noteq> None
   \<Longrightarrow> delete_filter books title = Inr (filter (\<lambda>book. \<not> same_title title book) books)"
  by (induction books) (auto simp: title_matches_titled)

lemma update_loop_absent:
  "\<forall>book \<in> set books. str_field ''title'' book \<noteq> None \<and> \<not> same_title title book
   \<Longrightarrow> update_loop books title new_data = Inr None"
  by (induction books) (auto simp: title_matches_titled)

lemma update_loop_first:
  assumes "\<forall>book \<in> set pre. str_field ''title'' book \<noteq> None \<and> \<not> same_title title book"
    and "same_title title (PDict kvs)"
  shows "update_loop (pre @ PDict kvs # post) title new_data =
         Inr (Some (pre @ PDict (dict_update kvs new_data) # post))"
  using assms
proof (induction pre)
  case Nil
  then have "str_field ''title'' (PDict kvs) \<noteq> None"
    by (auto simp: same_title_def split: option.splits)
  with Nil show ?case
    by (simp add: title_matches_titled py_update_def)
next
  case (Cons book pre)
  then show ?case
    by (simp add: title_matches_titled)
qed

lemma shelf_titles:
  "\<forall>book \<in> set [foundation, dune, dune_messiah, dune_again]. str_field ''title'' book \<noteq> None"
  by (simp add: foundation_def dune_def dune_messiah_def dune_again_def str_field_def)

section \<open>Adding a book\<close>

text \<open>
  C1, as amended: \<open>add_book\<close> validates nothing; the check is in the form. When the title
  or the author is empty, the form reports an error and does not call \<open>add_book\<close>: the
  list, the file and the number of saves are the ones it started from.
\<close>

theorem add_book_form_empty:
  assumes "title = [] \<or> author = []"
  shows "add_book_form today title author year genre read st =
         Inr (Error ''Please fill in all required fields!'', st)"
  using assms by (auto simp: add_book_form_def)

theorem add_book_form_empty_witness:
  "add_book_form ''2024-03-05'' [] ''Herbert'' 1965 ''Fiction'' False shelf =
     Inr (Error ''Please fill in all required fields!'', shelf)"
  by (rule add_book_form_empty) simp

text \<open>
  C1 as stated fails on \<open>add_book\<close>: called with an empty title and an empty author in a
  new collection, it appends the record and saves it.
\<close>

theorem add_book_empty_counterexample:
  "add_book ''2024-03-05'' [] [] 1965 ''Fiction'' False empty_dir =
     Inr \<lparr>books_list = PList [PDict
             [(''title'', PStr []), (''author'', PStr []), (''year'', PInt 1965),
              (''genre'', PStr ''Fiction''), (''read'', PBool False),
              (''date_added'', PStr ''2024-03-05'')]],
          storage_file = Some (file_written (PList [PDict
             [(''title'', PStr []), (''author'', PStr []), (''year'', PInt 1965),
              (''genre'', PStr ''Fiction''), (''read'', PBool False),
              (''date_added'', PStr ''2024-03-05'')]])),
          save_calls = 1\<rparr>"
  by (simp add: add_book_def empty_dir_def save_to_file_def Let_def)

section \<open>Deleting by title\<close>

text \<open>
  C2, as amended: when the collection is a list of books with titles, every call of
  \<open>delete_book\<close> calls \<open>save_to_file\<close> once, and the file holds the list as it is after
  the call, whether or not a book was removed. When none of the titles equals the
  argument case-insensitively, the list is left as it was, and is written to the file
  all the same.
\<close>

theorem delete_book_no_match:
  assumes "books_list st = PList books"
    and "\<forall>book \<in> set books. str_field ''title'' book \<noteq> None"
  shows "(\<exists>st'. delete_book title st = Inr st'
            \<and> save_calls st' = Suc (save_calls st)
            \<and> storage_file st' = Some (file_written (books_list st')))
         \<and> ((\<forall>book \<in> set books. \<not> same_title title book) \<longrightarrow>
              delete_book title st =
                Inr \<lparr>books_list = books_list st,
                     storage_file = Some (file_written (books_list st)),
                     save_calls = Suc (save_calls st)\<rparr>)"
proof (intro conjI impI)
  from assms show "\<exists>st'. delete_book title st = Inr st'
            \<and> save_calls st' = Suc (save_calls st)
            \<and> storage_file st' = Some (file_written (books_list st'))"
    by (simp add: delete_book_def py_iter_def delete_filter_titled save_to_file_def)
next
  assume "\<forall>book \<in> set books. \<not> same_title title book"
  then have "filter (\<lambda>book. \<not> same_title title book) books = books"
    by (induction books) auto
  with assms show "delete_book title st =
                Inr \<lparr>books_list = books_list st,
                     storage_file = Some (file_written (books_list st)),
                     save_calls = Suc (save_calls st)\<rparr>"
    by (simp add: delete_book_def py_iter_def delete_filter_titled save_to_file_def)
qed

theorem delete_book_no_match_witness:
  "delete_book ''Missing'' shelf =
     Inr \<lparr>books_list = PList [foundation, dune, dune_messiah, dune_again],
          storage_file = Some (file_written (PList [foundation, dune, dune_messiah, dune_again])),
          save_calls = 1\<rparr>
   \<and> (case delete_book ''dune'' shelf of
         Inl e \<Rightarrow> False
       | Inr st' \<Rightarrow>
           save_calls st' = 1 \<and> storage_file st' = Some (file_written (books_list st')))"
proof -
  have books: "books_list shelf = PList [foundation, dune, dune_messiah, dune_again]"
    by (simp add: shelf_def)
  have "\<forall>book \<in> set [foundation, dune, dune_messiah, dune_again]. \<not> same_title ''Missing'' book"
    by (simp add: foundation_def dune_def dune_messiah_def dune_again_def str_field_def
        same_title_def lower_def lower_char_def upper_letters_def lower_letters_def)
  with delete_book_no_match [OF books shelf_titles, of "''Missing''"]
  have "delete_book ''Missing'' shelf =
         Inr \<lparr>books_list = books_list shelf,
              storage_file = Some (file_written (books_list shelf)),
              save_calls = Suc (save_calls shelf)\<rparr>"
    by blast
  then have "delete_book ''Missing'' shelf =
     Inr \<lparr>books_list = PList [foundation, dune, dune_messiah, dune_again],
          storage_file = Some (file_written (PList [foundation, dune, dune_messiah, dune_again])),
          save_calls = 1\<rparr>"
    by (simp add: shelf_def)
  moreover from delete_book_no_match [OF books shelf_titles, of "''dune''"]
  obtain st' where "delete_book ''dune'' shelf = Inr st'"
    and "save_calls st' = Suc (save_calls shelf)"
    and "storage_file st' = Some (file_written (books_list st'))"
    by blast
  then have "case delete_book ''dune'' shelf of
         Inl e \<Rightarrow> False
       | Inr st' \<Rightarrow>
           save_calls st' = 1 \<and> storage_file st' = Some (file_written (books_list st'))"
    by (simp add: shelf_def)
  ultimately show ?thesis
    by (rule conjI)
qed

text \<open>
  C2 as stated fails: in a new collection, whose directory has no file, deleting a title
  that matches nothing calls \<open>save_to_file\<close>, and the file is there afterwards.
\<close>

theorem delete_book_no_match_counterexample:
  "init None = Inr empty_dir
   \<and> storage_file empty_dir = None
   \<and> save_calls empty_dir = 0
   \<and> delete_book ''Dune'' empty_dir =
       Inr \<lparr>books_list = PList [], storage_file = Some (JSON (PList [])), save_calls = 1\<rparr>"
  by (simp add: init_def read_from_file_def empty_dir_def delete_book_def py_iter_def
      save_to_file_def file_written_distinct_keys)

text \<open>
  C5: when the collection is a list of books with titles, \<open>delete_book\<close> keeps exactly the
  books whose title differs from the argument case-insensitively, each as it was and in
  the order they had (\<open>filter\<close>), and saves that list.
\<close>

theorem delete_book_removes_matches:
  assumes "books_list st = PList books"
    and "\<forall>book \<in> set books. str_field ''title'' book \<noteq> None"
  shows "delete_book title st =
         Inr \<lparr>books_list = PList (filter (\<lambda>book. \<not> same_title title book) books),
              storage_file = Some (file_written (PList (filter (\<lambda>book. \<not> same_title title book) books))),
              save_calls = Suc (save_calls st)\<rparr>"
  using assms by (simp add: delete_book_def py_iter_def delete_filter_titled save_to_file_def)

theorem delete_book_removes_matches_witness:
  "delete_book ''dune'' shelf =
     Inr \<lparr>books_list = PList [foundation, dune_messiah],
          storage_file = Some (file_written (PList [foundation, dune_messiah])),
          save_calls = 1\<rparr>"
proof -
  have "books_list shelf = PList [foundation, dune, dune_messiah, dune_again]"
    by (simp add: shelf_def)
  then have "delete_book ''dune'' shelf =
         Inr \<lparr>books_list = PList (filter (\<lambda>book. \<not> same_title ''dune'' book)
                  [foundation, dune, dune_messiah, dune_again]),
              storage_file = Some (file_written (PList (filter (\<lambda>book. \<not> same_title ''dune'' book)
                  [foundation, dune, dune_messiah, dune_again]))),
              save_calls = Suc (save_calls shelf)\<rparr>"
    using shelf_titles by (rule delete_book_removes_matches)
  moreover have "filter (\<lambda>book. \<not> same_title ''dune'' book)
      [foundation, dune, dune_messiah, dune_again] = [foundation, dune_messiah]"
    by (simp add: foundation_def dune_def dune_messiah_def dune_again_def str_field_def
        same_title_def lower_def lower_char_def
        upper_letters_def lower_letters_def)
  moreover have "save_calls shelf = 0"
    by (simp add: shelf_def)
  ultimately show ?thesis
    by simp
qed

section \<open>Updating by title\<close>

text \<open>
  C3, as amended: when the books before the first one whose title equals the argument
  case-insensitively all have titles, \<open>update_book\<close> changes that first book only (the
  books before and after it are as they were), saves the whole list to the file and
  returns True. In the changed book a key that is not supplied keeps its value, and a
  key that is supplied takes the supplied value, \<^verbatim>\<open>date_added\<close> like any other.
\<close>

theorem update_book_first_match:
  assumes "books_list st = PList (pre @ PDict kvs # post)"
    and "\<forall>book \<in> set pre. str_field ''title'' book \<noteq> None \<and> \<not> same_title title book"
    and "same_title title (PDict kvs)"
  shows "update_book title new_data st =
           Inr (True,
                \<lparr>books_list = PList (pre @ PDict (dict_update kvs new_data) # post),
                 storage_file = Some (file_written (PList (pre @ PDict (dict_update kvs new_data) # post))),
                 save_calls = Suc (save_calls st)\<rparr>)
         \<and> (\<forall>key. key \<notin> fst ` set new_data \<longrightarrow>
                map_of (dict_update kvs new_data) key = map_of kvs key)
         \<and> (\<forall>key v. map_of (rev new_data) key = Some v \<longrightarrow>
                map_of (dict_update kvs new_data) key = Some v)"
proof -
  have "update_loop (pre @ PDict kvs # post) title new_data =
        Inr (Some (pre @ PDict (dict_update kvs new_data) # post))"
    using assms(2,3) by (rule update_loop_first)
  with assms(1) have "update_book title new_data st =
           Inr (True,
                \<lparr>books_list = PList (pre @ PDict (dict_update kvs new_data) # post),
                 storage_file = Some (file_written (PList (pre @ PDict (dict_update kvs new_data) # post))),
                 save_calls = Suc (save_calls st)\<rparr>)"
    by (simp add: update_book_def py_iter_def save_to_file_def)
  moreover have "\<forall>key. key \<notin> fst ` set new_data \<longrightarrow>
                map_of (dict_update kvs new_data) key = map_of kvs key"
    by (auto simp: map_of_dict_update map_add_def map_of_eq_None_iff[THEN iffD2]
        split: option.splits)
  moreover have "\<forall>key v. map_of (rev new_data) key = Some v \<longrightarrow>
                map_of (dict_update kvs new_data) key = Some v"
    by (simp add: map_of_dict_update map_add_def)
  ultimately show ?thesis
    by blast
qed

theorem update_book_first_match_witness:
  "update_book ''dune'' [(''read'', PBool True)] shelf =
     Inr (True,
          \<lparr>books_list = PList
             [foundation,
              PDict [(''title'', PStr ''Dune''), (''author'', PStr ''Herbert''),
                     (''year'', PInt 1965), (''genre'', PStr ''Science Fiction''),
                     (''read'', PBool True), (''date_added'', PStr ''2024-03-02'')],
              dune_messiah, dune_again],
           storage_file = Some (file_written (PList
             [foundation,
              PDict [(''title'', PStr ''Dune''), (''author'', PStr ''Herbert''),
                     (''year'', PInt 1965), (''genre'', PStr ''Science Fiction''),
                     (''read'', PBool True), (''date_added'', PStr ''2024-03-02'')],
              dune_messiah, dune_again])),
           save_calls = 1\<rparr>)"
proof -
  have "books_list shelf = PList ([foundation] @
      PDict [(''title'', PStr ''Dune''), (''author'', PStr ''Herbert''),
             (''year'', PInt 1965), (''genre'', PStr ''Science Fiction''),
             (''read'', PBool False), (''date_added'', PStr ''2024-03-02'')]
      # [dune_messiah, dune_again])"
    by (simp add: shelf_def dune_def)
  moreover have "\<forall>book \<in> set [foundation].
      str_field ''title'' book \<noteq> None \<and> \<not> same_title ''dune'' book"
    by (simp add: foundation_def str_field_def same_title_def lower_def lower_char_def upper_letters_def lower_letters_def)
  moreover have "same_title ''dune''
     (PDict [(''title'', PStr ''Dune''), (''author'', PStr ''Herbert''),
             (''year'', PInt 1965), (''genre'', PStr ''Science Fiction''),
             (''read'', PBool False), (''date_added'', PStr ''2024-03-02'')])"
    by (simp add: str_field_def same_title_def lower_def lower_char_def upper_letters_def lower_letters_def)
  ultimately show ?thesis
    using update_book_first_match [of shelf "[foundation]" _ "[dune_messiah, dune_again]"
        "''dune''" "[(''read'', PBool True)]"]
    by (simp add: shelf_def)
qed

text \<open>
  C3 as stated fails: \<^verbatim>\<open>date_added\<close> supplied among the fields overwrites the date the
  book was added on.
\<close>

theorem update_book_date_added_counterexample:
  "py_getitem dune ''date_added'' = Inr (PStr ''2024-03-02'')
   \<and> update_book ''dune'' [(''date_added'', PStr ''1999-12-31'')] shelf =
       Inr (True,
            \<lparr>books_list = PList
               [foundation,
                PDict [(''title'', PStr ''Dune''), (''author'', PStr ''Herbert''),
                       (''year'', PInt 1965), (''genre'', PStr ''Science Fiction''),
                       (''read'', PBool False), (''date_added'', PStr ''1999-12-31'')],
                dune_messiah, dune_again],
             storage_file = Some (file_written (PList
               [foundation,
                PDict [(''title'', PStr ''Dune''), (''author'', PStr ''Herbert''),
                       (''year'', PInt 1965), (''genre'', PStr ''Science Fiction''),
                       (''read'', PBool False), (''date_added'', PStr ''1999-12-31'')],
                dune_messiah, dune_again])),
             save_calls = 1\<rparr>)"
  by (simp add: update_book_def shelf_def py_iter_def foundation_def dune_def title_matches_def
      py_getitem_def py_lower_def lower_def lower_char_def upper_letters_def lower_letters_def py_update_def save_to_file_def)

text \<open>
  C6: when the collection is a list of books with titles, none of which equals the
  argument case-insensitively, \<open>update_book\<close> returns False and the state is the one it
  started from: the list is not changed, the file is not written and \<open>save_to_file\<close> is
  not called.
\<close>

theorem update_book_absent:
  assumes "books_list st = PList books"
    and "\<forall>book \<in> set books. str_field ''title'' book \<noteq> None \<and> \<not> same_title title book"
  shows "update_book title new_data st = Inr (False, st)"
  using assms by (simp add: update_book_def py_iter_def update_loop_absent)

theorem update_book_absent_witness:
  "update_book ''Missing'' [(''read'', PBool True)] shelf = Inr (False, shelf)"
proof -
  have "books_list shelf = PList [foundation, dune, dune_messiah, dune_again]"
    by (simp add: shelf_def)
  moreover have "\<forall>book \<in> set [foundation, dune, dune_messiah, dune_again].
      str_field ''title'' book \<noteq> None \<and> \<not> same_title ''Missing'' book"
    by (simp add: foundation_def dune_def dune_messiah_def dune_again_def str_field_def
        same_title_def lower_def lower_char_def upper_letters_def lower_letters_def)
  ultimately show ?thesis
    by (rule update_book_absent)
qed

text \<open>
  C10: when \<open>update_book\<close> finds a book, every pair of \<open>new_data\<close> (a dictionary: its keys
  are distinct) is stored in that book as it is, whatever the key; the keys of the book
  afterwards are the keys it had and the keys supplied, so a key outside the six fields
  of a record becomes a new field.
\<close>

theorem update_book_copies_every_pair:
  assumes "books_list st = PList (pre @ PDict kvs # post)"
    and "\<forall>book \<in> set pre. str_field ''title'' book \<noteq> None \<and> \<not> same_title title book"
    and "same_title title (PDict kvs)"
    and "distinct (map fst new_data)"
  shows "update_book title new_data st =
           Inr (True,
                save_to_file
                  (st\<lparr>books_list := PList (pre @ PDict (dict_update kvs new_data) # post)\<rparr>))
         \<and> (\<forall>(key, v) \<in> set new_data.
                py_getitem (PDict (dict_update kvs new_data)) key = Inr v)
         \<and> fst ` set (dict_update kvs new_data) = fst ` set kvs \<union> fst ` set new_data"
proof (intro conjI)
  have "update_loop (pre @ PDict kvs # post) title new_data =
        Inr (Some (pre @ PDict (dict_update kvs new_data) # post))"
    using assms(2,3) by (rule update_loop_first)
  with assms(1) show "update_book title new_data st =
      Inr (True,
           save_to_file
             (st\<lparr>books_list := PList (pre @ PDict (dict_update kvs new_data) # post)\<rparr>))"
    by (simp add: update_book_def py_iter_def)
  show "\<forall>(key, v) \<in> set new_data. py_getitem (PDict (dict_update kvs new_data)) key = Inr v"
    using assms(4)
    by (auto simp: py_getitem_def map_of_dict_update map_of_rev_distinct map_add_def)
  show "fst ` set (dict_update kvs new_data) = fst ` set kvs \<union> fst ` set new_data"
    by (rule keys_dict_update)
qed

theorem update_book_copies_every_pair_witness:
  "update_book ''FOUNDATION'' [(''rating'', PInt 5), (''year'', PStr ''long ago'')] shelf =
     Inr (True,
          \<lparr>books_list = PList
             [PDict [(''title'', PStr ''Foundation''), (''author'', PStr ''Asimov''),
                     (''year'', PStr ''long ago''), (''genre'', PStr ''Science Fiction''),
                     (''read'', PBool False), (''date_added'', PStr ''2024-03-01''),
                     (''rating'', PInt 5)],
              dune, dune_messiah, dune_again],
           storage_file = Some (file_written (PList
             [PDict [(''title'', PStr ''Foundation''), (''author'', PStr ''Asimov''),
                     (''year'', PStr ''long ago''), (''genre'', PStr ''Science Fiction''),
                     (''read'', PBool False), (''date_added'', PStr ''2024-03-01''),
                     (''rating'', PInt 5)],
              dune, dune_messiah, dune_again])),
           save_calls = 1\<rparr>)"
proof -
  have "books_list shelf = PList ([] @
      PDict [(''title'', PStr ''Foundation''), (''author'', PStr ''Asimov''),
             (''year'', PInt 1951), (''genre'', PStr ''Science Fiction''),
             (''read'', PBool False), (''date_added'', PStr ''2024-03-01'')]
      # [dune, dune_messiah, dune_again])"
    by (simp add: shelf_def foundation_def)
  moreover have "\<forall>book \<in> set [].
      str_field ''title'' book \<noteq> None \<and> \<not> same_title ''FOUNDATION'' book"
    by simp
  moreover have "same_title ''FOUNDATION''
     (PDict [(''title'', PStr ''Foundation''), (''author'', PStr ''Asimov''),
             (''year'', PInt 1951), (''genre'', PStr ''Science Fiction''),
             (''read'', PBool False), (''date_added'', PStr ''2024-03-01'')])"
    by (simp add: str_field_def same_title_def lower_def lower_char_def upper_letters_def lower_letters_def)
  moreover have "distinct (map fst [(''rating'', PInt 5), (''year'', PStr ''long ago'')])"
    by simp
  ultimately show ?thesis
    using update_book_copies_every_pair [of shelf "[]" _ "[dune, dune_messiah, dune_again]"
        "''FOUNDATION''" "[(''rating'', PInt 5), (''year'', PStr ''long ago'')]"]
    by (simp add: shelf_def save_to_file_def)
qed

section \<open>Loading and saving\<close>

text \<open>
  C4, as amended: \<open>read_from_file\<close> gives the empty list, and raises nothing, when the file
  is absent or its text is not JSON; when the text is JSON it gives the decoded value as
  it is, whatever its shape.
\<close>

theorem read_from_file_recovers:
  "(storage_file st = None \<or> storage_file st = Some NotJSON
      \<longrightarrow> read_from_file st = Inr (st\<lparr>books_list := PList []\<rparr>))
   \<and> (\<forall>v. storage_file st = Some (JSON v) \<longrightarrow> read_from_file st = Inr (st\<lparr>books_list := v\<rparr>))"
  by (auto simp: read_from_file_def)

theorem read_from_file_recovers_witness:
  "read_from_file \<lparr>books_list = PList [dune], storage_file = None, save_calls = 0\<rparr> =
     Inr \<lparr>books_list = PList [], storage_file = None, save_calls = 0\<rparr>
   \<and> read_from_file \<lparr>books_list = PList [dune], storage_file = Some NotJSON, save_calls = 0\<rparr> =
       Inr \<lparr>books_list = PList [], storage_file = Some NotJSON, save_calls = 0\<rparr>
   \<and> read_from_file \<lparr>books_list = PList [], storage_file = Some (JSON (PList [dune])),
                      save_calls = 0\<rparr> =
       Inr \<lparr>books_list = PList [dune], storage_file = Some (JSON (PList [dune])),
            save_calls = 0\<rparr>"
  using
    read_from_file_recovers [of "\<lparr>books_list = PList [dune], storage_file = None, save_calls = 0\<rparr>"]
    read_from_file_recovers
      [of "\<lparr>books_list = PList [dune], storage_file = Some NotJSON, save_calls = 0\<rparr>"]
    read_from_file_recovers
      [of "\<lparr>books_list = PList [], storage_file = Some (JSON (PList [dune])), save_calls = 0\<rparr>"]
  by simp

text \<open>
  C4 as stated fails: a file whose JSON text is the number 42 is not a sequence of
  records, and the collection built on it holds 42, not the empty list; a file whose
  bytes are not text makes the constructor raise.
\<close>

theorem read_from_file_counterexample:
  "init (Some (JSON (PInt 42))) =
     Inr \<lparr>books_list = PInt 42, storage_file = Some (JSON (PInt 42)), save_calls = 0\<rparr>
   \<and> init (Some Undecodable) = Inl UnicodeDecodeError"
  by (simp add: init_def read_from_file_def)

text \<open>
  C8: when no dictionary in the collection has a key twice, the file \<open>save_to_file\<close> writes
  decodes to the collection, so that loading right after saving gives the collection
  that was saved, in the same session and in a new one started on the file.
\<close>

theorem save_then_load:
  assumes "distinct_keys (books_list st)"
  shows "storage_file (save_to_file st) = Some (JSON (books_list st))
       \<and> read_from_file (save_to_file st) = Inr (save_to_file st)
       \<and> books_list (save_to_file st) = books_list st
       \<and> init (storage_file (save_to_file st)) =
           Inr \<lparr>books_list = books_list st, storage_file = Some (JSON (books_list st)),
                save_calls = 0\<rparr>"
  using assms
  by (simp add: read_from_file_def save_to_file_def init_def file_written_distinct_keys)

theorem save_then_load_witness:
  "storage_file (save_to_file \<lparr>books_list = PList [foundation, dune], storage_file = None,
                                save_calls = 0\<rparr>) = Some (JSON (PList [foundation, dune]))
   \<and> init (storage_file (save_to_file \<lparr>books_list = PList [foundation, dune],
                                         storage_file = None, save_calls = 0\<rparr>)) =
       Inr \<lparr>books_list = PList [foundation, dune],
            storage_file = Some (JSON (PList [foundation, dune])), save_calls = 0\<rparr>"
proof -
  have "distinct_keys (books_list \<lparr>books_list = PList [foundation, dune], storage_file = None,
                                    save_calls = 0\<rparr>)"
    by (simp add: foundation_def dune_def)
  then show ?thesis
    using save_then_load
      [of "\<lparr>books_list = PList [foundation, dune], storage_file = None, save_calls = 0\<rparr>"]
    by auto
qed

text \<open>The text written for a list of one small dictionary, line by line.\<close>

lemma json_dumps_example:
  "json_dumps (PList [PDict [(''year'', PInt 1965), (''read'', PBool False)]]) =
     ''['' @ [CHR 0x0A]
     @ ''    {'' @ [CHR 0x0A]
     @ ''        '' @ [CHR 0x22] @ ''year'' @ [CHR 0x22] @ '': 1965,'' @ [CHR 0x0A]
     @ ''        '' @ [CHR 0x22] @ ''read'' @ [CHR 0x22] @ '': false'' @ [CHR 0x0A]
     @ ''    }'' @ [CHR 0x0A]
     @ '']''"
  by code_simp

section \<open>Rounding to a double\<close>

text \<open>
  The number of binary digits, and the exponent of a positive number: \<open>x\<close> lies between
  \<open>2 ^ e\<close> and \<open>2 ^ (e + 1)\<close>.
\<close>

lemma bit_length_upper: "n < 2 ^ bit_length n"
proof (induction n rule: bit_length.induct)
  case (1 n)
  show ?case
  proof (cases "n = 0")
    case True
    then show ?thesis by (simp add: bit_length.simps)
  next
    case False
    with "1.IH" have "n div 2 < 2 ^ bit_length (n div 2)"
      by simp
    then have "n < 2 * 2 ^ bit_length (n div 2)"
      by linarith
    with False show ?thesis
      by (subst bit_length.simps) simp
  qed
qed

lemma bit_length_lower: "0 < n \<Longrightarrow> 2 ^ (bit_length n - 1) \<le> n"
proof (induction n rule: bit_length.induct)
  case (1 n)
  show ?case
  proof (cases "n div 2 = 0")
    case True
    with "1.prems" have "bit_length n = 1"
      by (subst bit_length.simps, subst bit_length.simps) simp
    with "1.prems" show ?thesis
      by simp
  next
    case False
    with "1.IH" "1.prems" have ih: "2 ^ (bit_length (n div 2) - 1) \<le> n div 2"
      by simp
    from False have pos: "0 < bit_length (n div 2)"
      by (subst bit_length.simps) simp
    from "1.prems" have "bit_length n = Suc (bit_length (n div 2))"
      by (subst bit_length.simps) simp
    then have "(2::nat) ^ (bit_length n - 1) = 2 * 2 ^ (bit_length (n div 2) - 1)"
      using pos by (cases "bit_length (n div 2)") simp_all
    with ih show ?thesis
      by linarith
  qed
qed

lemma binary_exponent_lower:
  assumes "0 < x"
  shows "2 powi binary_exponent x \<le> x"
proof (cases "1 \<le> x")
  case True
  define n where "n = nat \<lfloor>x\<rfloor>"
  from True have n: "0 < n" "rat_of_nat n \<le> x"
    unfolding n_def by (simp_all add: of_nat_nat le_floor_iff) 
  from n(1) have le: "(2::nat) ^ (bit_length n - 1) \<le> n"
    by (rule bit_length_lower)
  have "(2::rat) ^ (bit_length n - 1) = rat_of_nat (2 ^ (bit_length n - 1))"
    by simp
  also from le have "\<dots> \<le> rat_of_nat n"
    by (rule of_nat_mono)
  also note n(2)
  finally have le2: "2 ^ (bit_length n - 1) \<le> x" .
  from n(1) have pos: "0 < bit_length n"
    by (subst bit_length.simps) simp
  from True have "binary_exponent x = int (bit_length n) - 1"
    by (simp add: binary_exponent_def n_def)
  also from pos have "\<dots> = int (bit_length n - 1)"
    by simp
  finally have "(2::rat) powi binary_exponent x = 2 ^ (bit_length n - 1)"
    by (simp only: power_int_of_nat)
  with le2 show ?thesis
    by simp
next
  case False
  define m where "m = nat (\<lceil>1 / x\<rceil> - 1)"
  from assms have "1 / x \<le> of_int \<lceil>1 / x\<rceil>"
    by simp
  moreover from assms False have "0 \<le> \<lceil>1 / x\<rceil> - 1"
    by (simp add: less_ceiling_iff)
  then have "rat_of_nat m = rat_of_int (\<lceil>1 / x\<rceil> - 1)"
    unfolding m_def by (rule of_nat_nat)
  then have "rat_of_int \<lceil>1 / x\<rceil> = rat_of_nat m + 1"
    by simp
  moreover have "m < 2 ^ bit_length m"
    by (rule bit_length_upper)
  then have "Suc m \<le> 2 ^ bit_length m"
    by simp
  then have "rat_of_nat (Suc m) \<le> rat_of_nat (2 ^ bit_length m)"
    by (rule of_nat_mono)
  then have "rat_of_nat m + 1 \<le> 2 ^ bit_length m"
    by simp
  ultimately have "1 / x \<le> 2 ^ bit_length m"
    by simp
  with assms have "1 \<le> x * 2 ^ bit_length m"
    by (simp add: field_simps)
  then have "inverse (2 ^ bit_length m) \<le> x"
    by (simp add: field_simps)
  moreover from False have "binary_exponent x = - int (bit_length m)"
    by (simp add: binary_exponent_def m_def)
  then have "(2::rat) powi binary_exponent x = inverse (2 ^ bit_length m)"
    by (simp add: power_int_minus)
  ultimately show ?thesis
    by simp
qed

lemma power_int_two_le_exp: "(2::rat) powi j \<le> 2 powi k \<Longrightarrow> j \<le> k"
  using power_int_strict_increasing [of k j "2::rat"] by (cases "j \<le> k") auto

lemma floor_ratio: "\<lfloor>(numeral a :: rat) / numeral b\<rfloor> = numeral a div numeral b"
  using floor_divide_of_int_eq [of "numeral a" "numeral b", where ?'a = rat] by simp

lemma binary_exponent_upper:
  assumes "0 < x"
  shows "x < 2 powi (binary_exponent x + 1)"
proof (cases "1 \<le> x")
  case True
  define n where "n = nat \<lfloor>x\<rfloor>"
  from True have "0 \<le> \<lfloor>x\<rfloor>"
    by simp
  then have "rat_of_nat n = rat_of_int \<lfloor>x\<rfloor>"
    unfolding n_def by (rule of_nat_nat)
  moreover have "x < rat_of_int \<lfloor>x\<rfloor> + 1"
    by linarith
  ultimately have "x < rat_of_nat (Suc n)"
    by simp
  moreover have "n < 2 ^ bit_length n"
    by (rule bit_length_upper)
  then have "Suc n \<le> 2 ^ bit_length n"
    by simp
  then have "rat_of_nat (Suc n) \<le> rat_of_nat (2 ^ bit_length n)"
    by (rule of_nat_mono)
  ultimately have "x < 2 ^ bit_length n"
    by simp
  moreover from True have "binary_exponent x + 1 = int (bit_length n)"
    by (simp add: binary_exponent_def n_def)
  then have "(2::rat) powi (binary_exponent x + 1) = 2 ^ bit_length n"
    by (simp only: power_int_of_nat)
  ultimately show ?thesis
    by simp
next
  case False
  define m where "m = nat (\<lceil>1 / x\<rceil> - 1)"
  from assms False have "rat_of_int 1 < 1 / x"
    by simp
  then have c: "1 < \<lceil>1 / x\<rceil>"
    by (simp only: less_ceiling_iff)
  then have "0 \<le> \<lceil>1 / x\<rceil> - 1"
    by linarith
  then have "rat_of_nat m = rat_of_int (\<lceil>1 / x\<rceil> - 1)"
    unfolding m_def by (rule of_nat_nat)
  moreover have "rat_of_int \<lceil>1 / x\<rceil> - 1 < 1 / x"
    by linarith
  ultimately have mx: "rat_of_nat m < 1 / x"
    by simp
  from c have m: "0 < m"
    unfolding m_def by linarith
  then have "(2::nat) ^ (bit_length m - 1) \<le> m"
    by (rule bit_length_lower)
  then have "rat_of_nat (2 ^ (bit_length m - 1)) \<le> rat_of_nat m"
    by (rule of_nat_mono)
  also note mx
  finally have "2 ^ (bit_length m - 1) < 1 / x"
    by simp
  with assms have "x * 2 ^ (bit_length m - 1) < 1"
    by (simp add: field_simps)
  then have lt: "x < inverse (2 ^ (bit_length m - 1))"
    by (simp add: field_simps)
  from m have pos: "0 < bit_length m"
    by (subst bit_length.simps) simp
  from False have "binary_exponent x + 1 = - int (bit_length m) + 1"
    by (simp add: binary_exponent_def m_def)
  also from pos have "\<dots> = - int (bit_length m - 1)"
    by simp
  finally have "(2::rat) powi (binary_exponent x + 1) = inverse (2 ^ (bit_length m - 1))"
    by (simp only: power_int_minus power_int_of_nat)
  with lt show ?thesis
    by simp
qed

text \<open>
  Rounding gives one of the two neighbours, the nearer one; a number between 0 and a
  power of two is rounded to a number between them, at most half a unit of the last
  place away.
\<close>

lemma round_half_even_bounds: "\<lfloor>y\<rfloor> \<le> round_half_even y \<and> round_half_even y \<le> \<lceil>y\<rceil>"
proof (cases "y = of_int \<lfloor>y\<rfloor>")
  case True
  then have "\<lceil>y\<rceil> = \<lfloor>y\<rfloor>"
    by (metis ceiling_of_int)
  with True show ?thesis
    by (simp add: round_half_even_def)
next
  case False
  then have "\<lceil>y\<rceil> = \<lfloor>y\<rfloor> + 1"
    by (simp add: ceiling_altdef)
  then show ?thesis
    by (simp add: round_half_even_def)
qed

lemma round_double_bounds:
  assumes "0 \<le> x" and "x \<le> 2 powi k" and "- 1022 \<le> k"
  shows "0 \<le> round_double x \<and> round_double x \<le> 2 powi k"
proof (cases "x = 0")
  case True
  then show ?thesis
    by (simp add: round_double_def)
next
  case False
  with assms(1) have pos: "0 < x"
    by simp
  define e where "e = max (binary_exponent x) (- 1022)"
  define ulp :: rat where "ulp = 2 powi (e - 52)"
  define r where "r = round_half_even (x / ulp)"
  have ulp: "0 < ulp"
    by (simp add: ulp_def)
  from pos have "2 powi binary_exponent x \<le> x"
    by (rule binary_exponent_lower)
  with assms(2) have "(2::rat) powi binary_exponent x \<le> 2 powi k"
    by simp
  then have "binary_exponent x \<le> k"
    by (rule power_int_two_le_exp)
  with assms(3) have ek: "e \<le> k"
    by (simp add: e_def)
  from pos ulp have "0 \<le> x / ulp"
    by simp
  then have "0 \<le> \<lfloor>x / ulp\<rfloor>"
    by simp
  also have "\<lfloor>x / ulp\<rfloor> \<le> r"
    using round_half_even_bounds [of "x / ulp"] by (simp add: r_def)
  finally have r0: "0 \<le> r" .
  have "(2::rat) powi k = 2 powi (k - e + 52) * ulp"
    by (simp add: ulp_def power_int_add [symmetric])
  with assms(2) ulp have "x / ulp \<le> 2 powi (k - e + 52)"
    by (simp add: field_simps)
  also from ek have "(2::rat) powi (k - e + 52) = of_int (2 ^ nat (k - e + 52))"
    by (simp add: power_int_def)
  finally have "\<lceil>x / ulp\<rceil> \<le> 2 ^ nat (k - e + 52)"
    by (simp only: ceiling_le_iff)
  moreover have "r \<le> \<lceil>x / ulp\<rceil>"
    using round_half_even_bounds [of "x / ulp"] by (simp add: r_def)
  ultimately have "r \<le> 2 ^ nat (k - e + 52)"
    by (rule order_trans [rotated])
  then have "rat_of_int r \<le> rat_of_int (2 ^ nat (k - e + 52))"
    by (simp only: of_int_le_iff)
  also from ek have "\<dots> = 2 powi (k - e + 52)"
    by (simp add: power_int_def)
  finally have "rat_of_int r * ulp \<le> 2 powi (k - e + 52) * ulp"
    using ulp by simp
  also have "\<dots> = 2 powi k"
    by (simp add: ulp_def power_int_add [symmetric])
  finally have "rat_of_int r * ulp \<le> 2 powi k" .
  moreover from r0 ulp have "0 \<le> rat_of_int r * ulp"
    by simp
  moreover from pos have "round_double x = rat_of_int r * ulp"
    by (simp add: round_double_def r_def ulp_def e_def)
  ultimately show ?thesis
    by simp
qed

lemma round_half_even_nearest: "\<bar>rat_of_int (round_half_even y) - y\<bar> \<le> 1 / 2"
proof -
  have "rat_of_int \<lfloor>y\<rfloor> \<le> y" "y < rat_of_int \<lfloor>y\<rfloor> + 1"
    by linarith+
  then show ?thesis
    by (auto simp: round_half_even_def abs_le_iff)
qed

lemma round_double_nearest:
  assumes "0 \<le> x" and "x \<le> 2 powi k" and "- 1022 \<le> k"
  shows "\<bar>round_double x - x\<bar> \<le> 2 powi (k - 53)"
proof (cases "x = 0")
  case True
  then show ?thesis
    by (simp add: round_double_def)
next
  case False
  with assms(1) have pos: "0 < x"
    by simp
  define e where "e = max (binary_exponent x) (- 1022)"
  define ulp :: rat where "ulp = 2 powi (e - 52)"
  define r where "r = round_half_even (x / ulp)"
  have ulp: "0 < ulp"
    by (simp add: ulp_def)
  from pos have "2 powi binary_exponent x \<le> x"
    by (rule binary_exponent_lower)
  with assms(2) have "(2::rat) powi binary_exponent x \<le> 2 powi k"
    by simp
  then have "binary_exponent x \<le> k"
    by (rule power_int_two_le_exp)
  with assms(3) have ek: "e \<le> k"
    by (simp add: e_def)
  from pos have rd: "round_double x = rat_of_int r * ulp"
    by (simp add: round_double_def r_def ulp_def e_def)
  have "\<bar>rat_of_int r - x / ulp\<bar> \<le> 1 / 2"
    unfolding r_def by (rule round_half_even_nearest)
  then have "\<bar>rat_of_int r - x / ulp\<bar> * ulp \<le> 1 / 2 * ulp"
    using ulp by (simp only: mult_le_cancel_right_pos)
  moreover have "\<bar>rat_of_int r - x / ulp\<bar> * ulp = \<bar>rat_of_int r * ulp - x\<bar>"
  proof -
    from ulp have "\<bar>rat_of_int r - x / ulp\<bar> * ulp = \<bar>(rat_of_int r - x / ulp) * ulp\<bar>"
      by (simp add: abs_mult)
    also from ulp have "(rat_of_int r - x / ulp) * ulp = rat_of_int r * ulp - x"
      by (simp add: field_simps)
    finally show ?thesis .
  qed
  moreover have "1 / 2 * ulp = 2 powi (e - 53)"
  proof -
    have "(2::rat) powi (e - 52) = 2 powi (e - 53 + 1)"
      by simp
    also have "\<dots> = 2 powi (e - 53) * 2"
      by (subst power_int_add) simp_all
    finally show ?thesis
      by (simp add: ulp_def)
  qed
  moreover from ek have "(2::rat) powi (e - 53) \<le> 2 powi (k - 53)"
    by (intro power_int_increasing) simp_all
  ultimately show ?thesis
    using rd by simp
qed

lemma round_double_eval:
  assumes "0 < x" and "binary_exponent x = e" and "- 1022 \<le> e"
    and "round_half_even (x / 2 powi (e - 52)) = m"
  shows "round_double x = of_int m * 2 powi (e - 52)"
  using assms by (simp add: round_double_def max_def)

text \<open>
  The two roundings of \<^verbatim>\<open>1 / 3 * 100\<close> and of \<^verbatim>\<open>29 / 100 * 100\<close>: Python prints the
  results as \<^verbatim>\<open>33.33333333333333\<close> and \<^verbatim>\<open>28.999999999999996\<close>.
\<close>

lemma round_double_third: "round_double (1 / 3) = 6004799503160661 / 18014398509481984"
proof -
  have "bit_length 2 = 2"
    by (simp add: bit_length.simps)
  then have "binary_exponent (1 / 3) = - 2"
    by (simp add: binary_exponent_def)
  moreover have "(1 / 3 :: rat) / 2 powi (- 2 - 52) = 18014398509481984 / 3"
    by (simp add: power_int_minus)
  then have "round_half_even ((1 / 3) / 2 powi (- 2 - 52)) = 6004799503160661"
    by (simp add: round_half_even_def floor_ratio)
  ultimately have "round_double (1 / 3) = of_int 6004799503160661 * 2 powi (- 2 - 52)"
    by (intro round_double_eval) simp_all
  then show ?thesis
    by (simp add: power_int_minus)
qed

lemma round_double_third_times_100:
  "round_double (6004799503160661 / 18014398509481984 * 100) = 2345624805922133 / 70368744177664"
proof -
  have "bit_length 33 = 6"
    by (simp add: bit_length.simps)
  then have "binary_exponent (6004799503160661 / 18014398509481984 * 100) = 5"
    by (simp add: binary_exponent_def floor_ratio)
  moreover have "(6004799503160661 / 18014398509481984 * 100 :: rat) / 2 powi (5 - 52)
      = 600479950316066100 / 128"
    by (simp add: power_int_minus)
  then have "round_half_even ((6004799503160661 / 18014398509481984 * 100) / 2 powi (5 - 52))
      = 4691249611844266"
    by (simp add: round_half_even_def floor_ratio)
  ultimately have "round_double (6004799503160661 / 18014398509481984 * 100)
      = of_int 4691249611844266 * 2 powi (5 - 52)"
    by (intro round_double_eval) simp_all
  then show ?thesis
    by (simp add: power_int_minus)
qed

lemma round_double_29_percent:
  "round_double (29 / 100) = 5224175567749775 / 18014398509481984"
proof -
  have "bit_length 3 = 2"
    by (simp add: bit_length.simps)
  then have "binary_exponent (29 / 100) = - 2"
    by (simp add: binary_exponent_def ceiling_altdef floor_ratio)
  moreover have "(29 / 100 :: rat) / 2 powi (- 2 - 52) = 130604389193744384 / 25"
    by (simp add: power_int_minus)
  then have "round_half_even ((29 / 100) / 2 powi (- 2 - 52)) = 5224175567749775"
    by (simp add: round_half_even_def floor_ratio)
  ultimately have "round_double (29 / 100) = of_int 5224175567749775 * 2 powi (- 2 - 52)"
    by (intro round_double_eval) simp_all
  then show ?thesis
    by (simp add: power_int_minus)
qed

lemma round_double_29_percent_times_100:
  "round_double (5224175567749775 / 18014398509481984 * 100) = 8162774324609023 / 281474976710656"
proof -
  have "bit_length 28 = 5"
    by (simp add: bit_length.simps)
  then have "binary_exponent (5224175567749775 / 18014398509481984 * 100) = 4"
    by (simp add: binary_exponent_def floor_ratio)
  moreover have "(5224175567749775 / 18014398509481984 * 100 :: rat) / 2 powi (4 - 52)
      = 130604389193744375 / 16"
    by (simp add: power_int_minus)
  then have "round_half_even ((5224175567749775 / 18014398509481984 * 100) / 2 powi (4 - 52))
      = 8162774324609023"
    by (simp add: round_half_even_def floor_ratio)
  ultimately have "round_double (5224175567749775 / 18014398509481984 * 100)
      = of_int 8162774324609023 * 2 powi (4 - 52)"
    by (intro round_double_eval) simp_all
  then show ?thesis
    by (simp add: power_int_minus)
qed

section \<open>Reading statistics\<close>

lemma count_read_flags:
  "\<forall>book \<in> set books. read_flag book \<noteq> None
   \<Longrightarrow> count_read books = Inr (length (filter (\<lambda>book. read_flag book = Some True) books))"
  by (induction books)
    (auto simp: read_flag_def py_getitem_def truthy_def split: pyval.splits option.splits)

text \<open>
  The rate of \<open>r\<close> read books among \<open>n\<close>: neither the division nor the multiplication
  overflows, so the rate is the quotient rounded, times 100, rounded.
\<close>

lemma completion_rate_value:
  assumes "r \<le> n" and "0 < n"
  shows "py_truediv (int r) (int n) = Inr (Finite (round_double (of_nat r / of_nat n)))"
    and "py_float_mul (Finite (round_double (of_nat r / of_nat n))) (Finite 100) =
         Finite (round_double (round_double (of_nat r / of_nat n) * 100))"
proof -
  define q :: rat where "q = of_nat r / of_nat n"
  from assms have "0 \<le> q" and "q \<le> 2 powi 0"
    by (simp_all add: q_def)
  then have a: "0 \<le> round_double q \<and> round_double q \<le> 2 powi 0"
    by (rule round_double_bounds) simp
  then have "\<bar>round_double q\<bar> \<le> 1"
    by simp
  also have "(1::rat) < 2 ^ 1024"
    by simp
  finally have "\<not> 2 ^ 1024 \<le> \<bar>round_double q\<bar>"
    by simp
  with assms(2) show "py_truediv (int r) (int n) =
      Inr (Finite (round_double (of_nat r / of_nat n)))"
    by (simp add: py_truediv_def q_def)
  from a have "0 \<le> round_double q * 100" and "round_double q * 100 \<le> 2 powi 7"
    by simp_all
  then have "0 \<le> round_double (round_double q * 100)
      \<and> round_double (round_double q * 100) \<le> 2 powi 7"
    by (rule round_double_bounds) simp
  moreover have "(2::rat) powi 7 < 2 ^ 1024"
    by simp
  ultimately have "\<not> 2 ^ 1024 \<le> round_double (round_double q * 100)"
    and "\<not> round_double (round_double q * 100) \<le> - (2 ^ 1024)"
    by linarith+
  then show "py_float_mul (Finite (round_double (of_nat r / of_nat n))) (Finite 100) =
      Finite (round_double (round_double (of_nat r / of_nat n) * 100))"
    by (simp add: float_result_def q_def)
qed

text \<open>
  The rate computed differs from the exact \<open>r / n * 100\<close> by less than \<open>2 ^ (- 45)\<close>.
\<close>

lemma completion_rate_accuracy:
  assumes "r \<le> n" and "0 < n"
  shows "\<bar>round_double (round_double (of_nat r / of_nat n) * 100) - of_nat r / of_nat n * 100\<bar>
         \<le> 1 / 2 ^ 45"
proof -
  define q :: rat where "q = of_nat r / of_nat n"
  define a where "a = round_double q"
  from assms have q: "0 \<le> q" "q \<le> 2 powi 0"
    by (simp_all add: q_def)
  then have "0 \<le> round_double q \<and> round_double q \<le> 2 powi 0"
    by (rule round_double_bounds) simp
  then have a: "0 \<le> a * 100" "a * 100 \<le> 2 powi 7"
    by (simp_all add: a_def)
  from q have "\<bar>round_double q - q\<bar> \<le> 2 powi (0 - 53)"
    by (rule round_double_nearest) simp
  moreover have "(2::rat) powi (0 - 53) = 1 / 2 ^ 53"
    by (simp add: power_int_minus inverse_eq_divide)
  ultimately have 1: "\<bar>a - q\<bar> \<le> 1 / 2 ^ 53"
    by (simp only: a_def)
  from a have "\<bar>round_double (a * 100) - a * 100\<bar> \<le> 2 powi (7 - 53)"
    by (rule round_double_nearest) simp
  moreover have "(2::rat) powi (7 - 53) = 1 / 2 ^ 46"
    by (simp add: power_int_minus inverse_eq_divide)
  ultimately have 2: "\<bar>round_double (a * 100) - a * 100\<bar> \<le> 1 / 2 ^ 46"
    by (simp only:)
  have "(1 / 2 ^ 53 :: rat) = 1 / 9007199254740992" "(1 / 2 ^ 46 :: rat) = 1 / 70368744177664"
    "(1 / 2 ^ 45 :: rat) = 1 / 35184372088832"
    by simp_all
  with 1 2 have "\<bar>round_double (a * 100) - q * 100\<bar> \<le> 1 / 2 ^ 45"
    by (simp only:)
  then show ?thesis
    by (simp add: a_def q_def)
qed

text \<open>
  C7: for a list of books whose \<^verbatim>\<open>"read"\<close> is a boolean, \<open>get_reading_stats\<close> returns the
  number of books, the number of books that are read, and the rate: for the empty list
  the \<^verbatim>\<open>int\<close> 0, otherwise the \<^verbatim>\<open>float\<close> that \<^verbatim>\<open>completed / total * 100\<close> evaluates to,
  which is the quotient rounded to a double, times 100, rounded to a double. It raises
  nothing, so the division is never one by zero.
\<close>

theorem get_reading_stats_correct:
  assumes "books_list st = PList books"
    and "\<forall>book \<in> set books. read_flag book \<noteq> None"
  shows "get_reading_stats st =
         Inr (length books,
              length (filter (\<lambda>book. read_flag book = Some True) books),
              if length books > 0
              then PyFloat (Finite (round_double
                     (round_double
                        (of_nat (length (filter (\<lambda>book. read_flag book = Some True) books))
                         / of_nat (length books))
                      * 100)))
              else PyInt 0)"
proof (cases "length books > 0")
  case True
  have "length (filter (\<lambda>book. read_flag book = Some True) books) \<le> length books"
    by (rule length_filter_le)
  from completion_rate_value [OF this True] assms True show ?thesis
    by (simp add: get_reading_stats_def py_len_def py_iter_def count_read_flags)
next
  case False
  with assms show ?thesis
    by (simp add: get_reading_stats_def py_len_def py_iter_def)
qed

theorem get_reading_stats_correct_witness:
  "get_reading_stats \<lparr>books_list = PList [foundation, dune, dune_messiah],
                      storage_file = None, save_calls = 0\<rparr> =
     Inr (3, 1, PyFloat (Finite (2345624805922133 / 70368744177664)))
   \<and> get_reading_stats empty_dir = Inr (0, 0, PyInt 0)"
proof -
  have "\<forall>book \<in> set [foundation, dune, dune_messiah]. read_flag book \<noteq> None"
    by (auto simp: foundation_def dune_def dune_messiah_def read_flag_def)
  moreover have "filter (\<lambda>book. read_flag book = Some True) [foundation, dune, dune_messiah]
      = [dune_messiah]"
    by (simp add: foundation_def dune_def dune_messiah_def read_flag_def)
  moreover have "round_double (round_double (1 / 3) * 100) = 2345624805922133 / 70368744177664"
    by (simp only: round_double_third round_double_third_times_100)
  ultimately have "get_reading_stats \<lparr>books_list = PList [foundation, dune, dune_messiah],
                      storage_file = None, save_calls = 0\<rparr> =
     Inr (3, 1, PyFloat (Finite (2345624805922133 / 70368744177664)))"
    using get_reading_stats_correct
      [of "\<lparr>books_list = PList [foundation, dune, dune_messiah],
            storage_file = None, save_calls = 0\<rparr>" "[foundation, dune, dune_messiah]"]
    by simp
  moreover have "get_reading_stats empty_dir = Inr (0, 0, PyInt 0)"
    using get_reading_stats_correct [of empty_dir "[]"] by (simp add: empty_dir_def)
  ultimately show ?thesis
    by simp
qed

text \<open>
  With 29 books read among 100 the rate is not 29: the division gives the double nearest
  to 0.29, which is below it, and the product is rounded to the double below 29.
\<close>

lemma completion_rate_29_of_100:
  "py_truediv 29 100 = Inr (Finite (5224175567749775 / 18014398509481984))
   \<and> py_float_mul (Finite (5224175567749775 / 18014398509481984)) (Finite 100) =
       Finite (8162774324609023 / 281474976710656)
   \<and> (8162774324609023 / 281474976710656 :: rat) < 29"
proof -
  have "round_double (round_double (29 / 100) * 100) = 8162774324609023 / 281474976710656"
    by (simp only: round_double_29_percent round_double_29_percent_times_100)
  with completion_rate_value [of 29 100] show ?thesis
    by (simp add: round_double_29_percent)
qed

section \<open>Searching\<close>

lemma search_hit_title:
  "str_field ''title'' book \<noteq> None
   \<Longrightarrow> search_hit Title search_term book = Inr (field_contains ''title'' search_term book)"
  by (auto simp: search_hit_def str_field_def field_contains_def py_getitem_def py_lower_def
      split: pyval.splits option.splits)

lemma search_hit_author:
  "str_field ''author'' book \<noteq> None
   \<Longrightarrow> search_hit Author search_term book = Inr (field_contains ''author'' search_term book)"
  by (auto simp: search_hit_def str_field_def field_contains_def py_getitem_def py_lower_def
      split: pyval.splits option.splits)

lemma search_loop_title:
  "\<forall>book \<in> set books. str_field ''title'' book \<noteq> None
   \<Longrightarrow> search_loop Title search_term books =
       Inr (filter (field_contains ''title'' search_term) books)"
  by (induction books) (auto simp: search_hit_title)

lemma search_loop_author:
  "\<forall>book \<in> set books. str_field ''author'' book \<noteq> None
   \<Longrightarrow> search_loop Author search_term books =
       Inr (filter (field_contains ''author'' search_term) books)"
  by (induction books) (auto simp: search_hit_author)

lemma view_shows_all:
  assumes "str_field ''title'' book \<noteq> None" and "str_field ''author'' book \<noteq> None"
  shows "view_shows search_term ''All'' book =
         Inr (field_contains ''title'' search_term book
              \<or> field_contains ''author'' search_term book)"
  using assms
  by (auto simp: view_shows_def genre_passes_def str_field_def field_contains_def py_getitem_def
      py_lower_def split: pyval.splits option.splits)

text \<open>The card of a record that has the five fields can be built.\<close>

lemma book_card_displayable: "displayable book \<Longrightarrow> \<exists>c. book_card book = Inr c"
  by (auto simp: displayable_def book_card_def str_field_def has_field_def py_getitem_def
      split: pyval.splits option.splits)

lemma button_key_displayable: "displayable book \<Longrightarrow> \<exists>t. py_getitem book ''title'' = Inr t"
  by (auto simp: displayable_def str_field_def py_getitem_def split: pyval.splits option.splits)

lemma genre_displayable: "displayable book \<Longrightarrow> \<exists>g. py_getitem book ''genre'' = Inr (PStr g)"
  by (auto simp: displayable_def str_field_def py_getitem_def split: pyval.splits option.splits)

lemma genre_options_displayable:
  "\<forall>book \<in> set books. displayable book \<Longrightarrow> \<exists>options. genre_options books = Inr options"
proof (induction books)
  case Nil
  show ?case
    by simp
next
  case (Cons book books)
  then obtain g options where "py_getitem book ''genre'' = Inr (PStr g)"
    and "genre_options books = Inr options"
    using genre_displayable [of book] by auto
  then show ?case
    by (simp add: hashable_def)
qed

lemma show_results_displayable:
  "\<forall>book \<in> set results. displayable book \<Longrightarrow> show_results results = Inr ()"
proof (induction results)
  case Nil
  show ?case
    by simp
next
  case (Cons book results)
  then obtain c where "book_card book = Inr c"
    using book_card_displayable [of book] by auto
  with Cons show ?case
    by simp
qed

lemma view_loop_all:
  "\<forall>book \<in> set books. displayable book
   \<Longrightarrow> view_loop search_term ''All'' books =
       Inr (filter (\<lambda>book. field_contains ''title'' search_term book
                          \<or> field_contains ''author'' search_term book) books)"
proof (induction books)
  case Nil
  show ?case
    by simp
next
  case (Cons book books)
  then have d: "displayable book"
    by simp
  then obtain c t where shown: "book_card book = Inr c"
    and key: "py_getitem book ''title'' = Inr t"
    using book_card_displayable [of book] button_key_displayable [of book] by auto
  from d have "str_field ''title'' book \<noteq> None" and "str_field ''author'' book \<noteq> None"
    by (simp_all add: displayable_def)
  then have "view_shows search_term ''All'' book =
         Inr (field_contains ''title'' search_term book
              \<or> field_contains ''author'' search_term book)"
    by (rule view_shows_all)
  with Cons shown key show ?case
    by (cases "field_contains ''title'' search_term book
              \<or> field_contains ''author'' search_term book") simp_all
qed

lemma field_contains_empty:
  "str_field key book \<noteq> None \<Longrightarrow> field_contains key [] book"
  by (auto simp: field_contains_def lower_def)

text \<open>
  C9, as amended: for a list of records that have the five fields of a card, title,
  author and genre being strings, the Search Books page with a term that is not empty
  returns, in the order of the list, exactly the books whose title (or author, as
  chosen) contains the term case-insensitively, and the View Collection page with the
  genre filter \<^verbatim>\<open>"All"\<close> shows exactly the books whose title or author contains it. The
  empty term shows every book on the View Collection page; on the Search Books page it
  searches nothing.
\<close>

theorem search_results:
  assumes "books_list st = PList books"
    and "\<forall>book \<in> set books. displayable book"
  shows "(search_term \<noteq> [] \<longrightarrow>
            search_books Title search_term st =
              Inr (Some (filter (field_contains ''title'' search_term) books))
          \<and> search_books Author search_term st =
              Inr (Some (filter (field_contains ''author'' search_term) books)))
       \<and> view_collection search_term ''All'' st =
           Inr (filter (\<lambda>book. field_contains ''title'' search_term book
                              \<or> field_contains ''author'' search_term book) books)
       \<and> view_collection [] ''All'' st = Inr books
       \<and> search_books ty [] st = Inr None"
proof -
  from assms(2) have strs:
    "\<forall>book \<in> set books. str_field ''title'' book \<noteq> None"
    "\<forall>book \<in> set books. str_field ''author'' book \<noteq> None"
    by (simp_all add: displayable_def)
  have title: "search_loop Title search_term books =
      Inr (filter (field_contains ''title'' search_term) books)"
    using strs(1) by (rule search_loop_title)
  have author: "search_loop Author search_term books =
      Inr (filter (field_contains ''author'' search_term) books)"
    using strs(2) by (rule search_loop_author)
  have shown: "show_results (filter P books) = Inr ()" for P
    using assms(2) by (intro show_results_displayable) simp
  obtain options where options: "genre_options books = Inr options"
    using assms(2) genre_options_displayable [of books] by auto
  have both: "view_loop t ''All'' books =
      Inr (filter (\<lambda>book. field_contains ''title'' t book \<or> field_contains ''author'' t book)
             books)"
    for t
    using assms(2) by (rule view_loop_all)
  have "filter (\<lambda>book. field_contains ''title'' [] book \<or> field_contains ''author'' [] book)
      books = books"
    using strs(1) by (simp add: field_contains_empty)
  with both [of "[]"] have every: "view_loop [] ''All'' books = Inr books"
    by simp
  show ?thesis
    using assms(1) title author shown options both [of search_term] every
    by (simp add: search_books_def view_collection_def py_iter_def)
qed

lemma shelf_contains:
  "field_contains ''title'' ''dune'' dune"
  "field_contains ''title'' ''dune'' dune_messiah"
  "field_contains ''title'' ''dune'' dune_again"
  "\<not> field_contains ''title'' ''dune'' foundation"
  "field_contains ''author'' ''ASIM'' foundation"
  "\<not> field_contains ''author'' ''ASIM'' dune"
  "\<not> field_contains ''author'' ''ASIM'' dune_messiah"
  "\<not> field_contains ''author'' ''ASIM'' dune_again"
  "field_contains ''title'' ''o'' foundation"
  "\<not> field_contains ''title'' ''o'' dune"
  "\<not> field_contains ''title'' ''o'' dune_messiah"
  "\<not> field_contains ''title'' ''o'' dune_again"
  "\<not> field_contains ''author'' ''o'' dune"
  "\<not> field_contains ''author'' ''o'' dune_messiah"
  "field_contains ''author'' ''o'' dune_again"
  by (simp_all add: foundation_def dune_def dune_messiah_def dune_again_def field_contains_def
      str_field_def lower_def lower_char_def upper_letters_def lower_letters_def
      sublist_code prefix_code)

theorem search_results_witness:
  "search_books Title ''dune'' shelf = Inr (Some [dune, dune_messiah, dune_again])
   \<and> search_books Author ''ASIM'' shelf = Inr (Some [foundation])
   \<and> view_collection ''o'' ''All'' shelf = Inr [foundation, dune_again]
   \<and> view_collection [] ''All'' shelf = Inr [foundation, dune, dune_messiah, dune_again]
   \<and> search_books Author [] shelf = Inr None"
proof -
  have "books_list shelf = PList [foundation, dune, dune_messiah, dune_again]"
    by (simp add: shelf_def)
  moreover have "\<forall>book \<in> set [foundation, dune, dune_messiah, dune_again]. displayable book"
    by (simp add: foundation_def dune_def dune_messiah_def dune_again_def displayable_def
        str_field_def has_field_def)
  ultimately have r: "(search_term \<noteq> [] \<longrightarrow>
            search_books Title search_term shelf =
              Inr (Some (filter (field_contains ''title'' search_term)
                           [foundation, dune, dune_messiah, dune_again]))
          \<and> search_books Author search_term shelf =
              Inr (Some (filter (field_contains ''author'' search_term)
                           [foundation, dune, dune_messiah, dune_again])))
       \<and> view_collection search_term ''All'' shelf =
           Inr (filter (\<lambda>book. field_contains ''title'' search_term book
                              \<or> field_contains ''author'' search_term book)
                  [foundation, dune, dune_messiah, dune_again])
       \<and> view_collection [] ''All'' shelf = Inr [foundation, dune, dune_messiah, dune_again]
       \<and> search_books ty [] shelf = Inr None" for search_term ty
    by (rule search_results)
  show ?thesis
    using r [of "''dune''" Author] r [of "''ASIM''" Author] r [of "''o''" Author] shelf_contains
    by simp
qed

text \<open>
  C9 as stated fails: on the Search Books page the empty term matches no book, for the
  page does not search at all.
\<close>

theorem search_books_empty_counterexample:
  "books_list shelf = PList [foundation, dune, dune_messiah, dune_again]
   \<and> search_books Title [] shelf = Inr None
   \<and> search_books Author [] shelf = Inr None"
  by (simp add: search_books_def shelf_def)

text \<open>
  The fields of the card are needed: a record with a title and an author and nothing
  else is found by the search, and neither page can show it.
\<close>

lemma pages_need_the_fields:
  "search_books Title ''dune''
     \<lparr>books_list = PList [PDict [(''title'', PStr ''Dune''), (''author'', PStr ''Herbert'')]],
      storage_file = None, save_calls = 0\<rparr> = Inl (KeyError ''year'')
   \<and> view_collection [] ''All''
     \<lparr>books_list = PList [PDict [(''title'', PStr ''Dune''), (''author'', PStr ''Herbert'')]],
      storage_file = None, save_calls = 0\<rparr> = Inl (KeyError ''genre'')"
  by (simp add: search_books_def view_collection_def py_iter_def search_hit_def py_getitem_def
      py_lower_def lower_def lower_char_def upper_letters_def lower_letters_def
      sublist_code prefix_code book_card_def)

end
